theory Spec2Isabelle
  imports Complex_Main "HOL-Library.List_Lexorder" "HOL-Library.Product_Lexorder"
begin

section \<open>The parse tree consumed by the verifier\<close>

text \<open>
  \<^verbatim>\<open>datajunction/auth/verifier.py\<close> works on the tree returned by \<^verbatim>\<open>sqloxide.parse_sql\<close>:
  nested dicts and lists keyed by grammar production. The code looks at six keys only:
  \<^verbatim>\<open>Table\<close> (fields \<^verbatim>\<open>name\<close>, \<^verbatim>\<open>alias\<close>), \<^verbatim>\<open>Select\<close>, \<^verbatim>\<open>Identifier\<close>,
  \<^verbatim>\<open>CompoundIdentifier\<close>, \<^verbatim>\<open>ExprWithAlias\<close> (fields \<^verbatim>\<open>expr\<close>, \<^verbatim>\<open>alias\<close>) and
  \<^verbatim>\<open>UnnamedExpr\<close>. Each is a constructor below; every other production is \<open>Other\<close>
  with its key and its sub-nodes in document order.

  An identifier is the dict \<^verbatim>\<open>{"quote_style": ..., "value": ...}\<close>. Its value is a string
  from the parser, and \<^verbatim>\<open>None\<close> when \<^verbatim>\<open>prepare_tree\<close> builds the prefix from an absent
  catalog or schema, or after \<^verbatim>\<open>matches_permission\<close> has overwritten it.
\<close>

datatype ident = Ident (quote_style: "char option") (val: "string option")

datatype table_alias = TableAlias (alias_name: ident) (alias_columns: "ident list")

datatype node =
    Table (table_name: "ident list") (talias: "table_alias option")
  | Identifier ident
  | CompoundIdentifier "ident list"
  | ExprWithAlias node ident
  | UnnamedExpr node
  | Select "node list"
  | Other string "node list"

type_synonym statement = node
type_synonym parse_tree = "node list"

definition NULL :: string where
  "NULL = ''null''"

text \<open>
  Modelled from the spec: \<^verbatim>\<open>find_nodes_by_key\<close> of \<^verbatim>\<open>datajunction.sql.parse\<close> is not
  part of the sources. The spec describes it as a generic recursive search over the parse
  tree that finds all sub-nodes matching a key. \<open>find_tables\<close> is that search for the key
  \<^verbatim>\<open>Table\<close>, in document order; the fields of a table reference hold no further nodes.
\<close>

fun find_tables :: "node \<Rightarrow> node list"
  and find_tables_list :: "node list \<Rightarrow> node list" where
  "find_tables (Table n a) = [Table n a]"
| "find_tables (Identifier i) = []"
| "find_tables (CompoundIdentifier c) = []"
| "find_tables (ExprWithAlias e a) = find_tables e"
| "find_tables (UnnamedExpr e) = find_tables e"
| "find_tables (Select cs) = find_tables_list cs"
| "find_tables (Other k cs) = find_tables_list cs"
| "find_tables_list [] = []"
| "find_tables_list (c # cs) = find_tables c @ find_tables_list cs"

section \<open>Permission matching\<close>

text \<open>
  \<^verbatim>\<open>if left["value"] == NULL: left["value"] = None\<close> writes into the identifier of the
  permission's table name.
\<close>

definition null_out :: "ident \<Rightarrow> ident" where
  "null_out left = (if val left = Some NULL then Ident (quote_style left) None else left)"

text \<open>
  The \<^verbatim>\<open>for left, right in zip(allowed_table, table["name"])\<close> loop with its
  \<^verbatim>\<open>else\<close> clause. It returns the allowed table as the loop leaves it (identifiers
  visited so far overwritten) and whether the loop ended without \<^verbatim>\<open>break\<close>.
\<close>

fun zip_loop :: "ident list \<Rightarrow> ident list \<Rightarrow> ident list \<times> bool" where
  "zip_loop [] rs = ([], True)"
| "zip_loop (l # ls) [] = (l # ls, True)"
| "zip_loop (l # ls) (r # rs) =
     (let left = null_out l in
      if left \<noteq> r then (left # ls, False)
      else (case zip_loop ls rs of (ls', ok) \<Rightarrow> (left # ls', ok)))"

text \<open>
  The \<^verbatim>\<open>for allowed_table in allowed_tables\<close> loop: it runs over every allowed table
  (there is no \<^verbatim>\<open>break\<close> after a match), \<open>match\<close> starts as \<^verbatim>\<open>False\<close> and is only
  ever set to \<^verbatim>\<open>True\<close>.
\<close>

fun allowed_loop :: "ident list list \<Rightarrow> ident list \<Rightarrow> bool \<Rightarrow> ident list list \<times> bool" where
  "allowed_loop [] tname match = ([], match)"
| "allowed_loop (a # as) tname match =
     (case zip_loop a tname of (a', ok) \<Rightarrow>
        (case allowed_loop as tname (match \<or> ok) of (as', m) \<Rightarrow> (a' # as', m)))"

text \<open>
  The \<^verbatim>\<open>for table in find_nodes_by_key(query, "Table")\<close> loop, returning \<^verbatim>\<open>False\<close> at
  the first table without a match. The allowed tables are threaded through, since the
  inner loops overwrite them.
\<close>

fun tables_loop :: "ident list list \<Rightarrow> ident list list \<Rightarrow> ident list list \<times> bool" where
  "tables_loop allowed [] = (allowed, True)"
| "tables_loop allowed (t # ts) =
     (case allowed_loop allowed t False of (allowed', match) \<Rightarrow>
        if \<not> match then (allowed', False) else tables_loop allowed' ts)"

text \<open>
  \<^verbatim>\<open>matches_permission\<close>. The source ends with a loop over the query's projections that
  has no body; nothing is checked there and the function returns \<^verbatim>\<open>True\<close>.
  \<open>matches_permission_run\<close> also returns the allowed tables as the call leaves them in
  the permission statement.
\<close>

definition matches_permission_run :: "statement \<Rightarrow> statement \<Rightarrow> ident list list \<times> bool" where
  "matches_permission_run query permission =
     tables_loop (map table_name (find_tables permission)) (map table_name (find_tables query))"

definition matches_permission :: "statement \<Rightarrow> statement \<Rightarrow> bool" where
  "matches_permission query permission = snd (matches_permission_run query permission)"

section \<open>Qualification\<close>

text \<open>
  A Python \<^verbatim>\<open>str\<close> is a sequence of Unicode code points. Where the code looks at the
  characters of a text (the filters of \<^verbatim>\<open>build.py\<close>, matched by a regular expression),
  the text is the list of its code points; \<open>ascii\<close> gives that list for an ASCII text.
\<close>

type_synonym pystr = "nat list"

definition ascii :: "string \<Rightarrow> pystr" where
  "ascii s = map of_char s"

text \<open>
  Every \<^verbatim>\<open>raise\<close> of the code below, and the exceptions of the operations it calls:
  the SQL parser rejecting a text, the schema inspector not knowing a table, the
  unpacking \<^verbatim>\<open>*_, a, b = xs\<close> of a list with fewer than two elements, a missing dict
  key, \<^verbatim>\<open>str.join\<close> over a \<^verbatim>\<open>None\<close>, a local read before its assignment, and
  a subscript out of range. \<open>Exception\<close> and \<open>ExceptionText\<close> carry the message of a
  \<^verbatim>\<open>raise Exception(f"...")\<close> of \<^verbatim>\<open>datajunction/sql/build.py\<close>: the first as a text
  of the model, the second as the code points of the \<^verbatim>\<open>str\<close>, for the messages that quote
  a filter or a dimension.
\<close>

datatype error =
    ParseError string
  | NoSuchTable "string option" "string option"
  | ValueError
  | KeyError string
  | ColumnNotFound ident
  | ColumnAmbiguous ident
  | TypeError
  | UnboundLocalError
  | NotImplementedError
  | IndexError
  | Exception string
  | ExceptionText pystr

text \<open>
  A Python \<^verbatim>\<open>dict\<close> keeps its keys in the order of their first insertion; assigning to
  a key that is present replaces the value where it stands.
\<close>

type_synonym ('k, 'v) dict = "('k \<times> 'v) list"

fun dict_set :: "'k \<Rightarrow> 'v \<Rightarrow> ('k, 'v) dict \<Rightarrow> ('k, 'v) dict" where
  "dict_set k v [] = [(k, v)]"
| "dict_set k v ((k', v') # d) = (if k' = k then (k, v) # d else (k', v') # dict_set k v d)"

definition dict_get :: "('k, 'v) dict \<Rightarrow> 'k \<Rightarrow> 'v option" where
  "dict_get d k = map_of d k"

text \<open>The slice \<^verbatim>\<open>xs[:k]\<close>: a negative \<open>k\<close> counts from the end.\<close>

definition slice_to :: "'a list \<Rightarrow> int \<Rightarrow> 'a list" where
  "slice_to xs k = (if 0 \<le> k then take (nat k) xs else take (nat (int (length xs) + k)) xs)"

text \<open>\<^verbatim>\<open>sep.join(parts)\<close>.\<close>

fun join :: "'a list \<Rightarrow> 'a list list \<Rightarrow> 'a list" where
  "join sep [] = []"
| "join sep [x] = x"
| "join sep (x # y # ys) = x @ sep @ join sep (y # ys)"

text \<open>
  \<^verbatim>\<open>prefix = [{"quote_style": None, "value": value} for value in [database, catalog, schema]]\<close>
\<close>

definition make_prefix :: "string \<Rightarrow> string option \<Rightarrow> string option \<Rightarrow> ident list" where
  "make_prefix database catalog schema = map (Ident None) [Some database, catalog, schema]"

text \<open>\<^verbatim>\<open>table["name"] = prefix[: 4 - len(name)] + name\<close>\<close>

definition qualify_name :: "ident list \<Rightarrow> ident list \<Rightarrow> ident list" where
  "qualify_name prefix n = slice_to prefix (4 - int (length n)) @ n"

text \<open>
  \<^verbatim>\<open>key = ".".join(part["value"] or NULL for part in table["name"])\<close>; the \<^verbatim>\<open>or\<close>
  takes \<^verbatim>\<open>NULL\<close> for \<^verbatim>\<open>None\<close> and for the empty string.
\<close>

definition key_part :: "ident \<Rightarrow> string" where
  "key_part part = (case val part of None \<Rightarrow> NULL | Some s \<Rightarrow> if s = [] then NULL else s)"

definition table_key :: "ident list \<Rightarrow> string" where
  "table_key n = join ''.'' (map key_part n)"

text \<open>
  The schema inspector is the external collaborator \<^verbatim>\<open>inspect(engine).get_columns\<close>,
  taken as a parameter: given the table and the schema it returns the column names, or
  \<open>None\<close> where it raises.
\<close>

type_synonym engine = "string option \<Rightarrow> string option \<Rightarrow> string list option"

definition get_column_names :: "engine \<Rightarrow> ident list \<Rightarrow> error + string list" where
  "get_column_names engine fq_name =
     (let vals = map val fq_name in
      if length vals < 2 then Inl ValueError
      else (let schema = vals ! (length vals - 2); table = last vals in
            case engine table schema of
              None \<Rightarrow> Inl (NoSuchTable table schema)
            | Some cols \<Rightarrow> Inr cols))"

text \<open>
  The two dicts of \<^verbatim>\<open>prepare_tree\<close>. \<^verbatim>\<open>tables[key]\<close> holds the table object and is only
  read back as \<^verbatim>\<open>tables[key]["name"]\<close>, after every name has been qualified; the model
  stores that name.
\<close>

record scope =
  columns :: "(string, string list) dict"
  tables :: "(string, ident list) dict"

definition empty_scope :: scope where
  "empty_scope = \<lparr>columns = [], tables = []\<rparr>"

text \<open>
  The first loop of \<^verbatim>\<open>prepare_tree\<close>: every table found in the tree gets its qualified
  name, and its columns are stored under its key.
\<close>

definition qualify_table ::
  "ident list \<Rightarrow> engine \<Rightarrow> ident list \<Rightarrow> scope \<Rightarrow> error + (ident list \<times> scope)" where
  "qualify_table prefix engine n sc =
     (let n' = qualify_name prefix n; key = table_key n' in
      case get_column_names engine n' of
        Inl e \<Rightarrow> Inl e
      | Inr cols \<Rightarrow>
          Inr (n', \<lparr>columns = dict_set key cols (columns sc), tables = dict_set key n' (tables sc)\<rparr>))"

fun qualify_tables :: "ident list \<Rightarrow> engine \<Rightarrow> node \<Rightarrow> scope \<Rightarrow> error + (node \<times> scope)"
  and qualify_tables_list ::
    "ident list \<Rightarrow> engine \<Rightarrow> node list \<Rightarrow> scope \<Rightarrow> error + (node list \<times> scope)" where
  "qualify_tables prefix engine (Table n a) sc =
     (case qualify_table prefix engine n sc of
        Inl e \<Rightarrow> Inl e
      | Inr (n', sc') \<Rightarrow> Inr (Table n' a, sc'))"
| "qualify_tables prefix engine (Identifier i) sc = Inr (Identifier i, sc)"
| "qualify_tables prefix engine (CompoundIdentifier c) sc = Inr (CompoundIdentifier c, sc)"
| "qualify_tables prefix engine (ExprWithAlias e a) sc =
     (case qualify_tables prefix engine e sc of
        Inl err \<Rightarrow> Inl err
      | Inr (e', sc') \<Rightarrow> Inr (ExprWithAlias e' a, sc'))"
| "qualify_tables prefix engine (UnnamedExpr e) sc =
     (case qualify_tables prefix engine e sc of
        Inl err \<Rightarrow> Inl err
      | Inr (e', sc') \<Rightarrow> Inr (UnnamedExpr e', sc'))"
| "qualify_tables prefix engine (Select cs) sc =
     (case qualify_tables_list prefix engine cs sc of
        Inl err \<Rightarrow> Inl err
      | Inr (cs', sc') \<Rightarrow> Inr (Select cs', sc'))"
| "qualify_tables prefix engine (Other k cs) sc =
     (case qualify_tables_list prefix engine cs sc of
        Inl err \<Rightarrow> Inl err
      | Inr (cs', sc') \<Rightarrow> Inr (Other k cs', sc'))"
| "qualify_tables_list prefix engine [] sc = Inr ([], sc)"
| "qualify_tables_list prefix engine (c # cs) sc =
     (case qualify_tables prefix engine c sc of
        Inl err \<Rightarrow> Inl err
      | Inr (c', sc') \<Rightarrow>
          (case qualify_tables_list prefix engine cs sc' of
             Inl err \<Rightarrow> Inl err
           | Inr (cs', sc'') \<Rightarrow> Inr (c' # cs', sc'')))"

text \<open>
  The second loop runs once for each \<^verbatim>\<open>Select\<close>. Its first inner loop records the
  aliases of the tables of that select and removes them:
  \<^verbatim>\<open>table_aliases[table["alias"]["name"]["value"]] = table["name"]; table["alias"] = None\<close>.
\<close>

type_synonym aliases = "(string option, ident list) dict"

fun unalias_tables :: "node \<Rightarrow> aliases \<Rightarrow> node \<times> aliases"
  and unalias_tables_list :: "node list \<Rightarrow> aliases \<Rightarrow> node list \<times> aliases" where
  "unalias_tables (Table n a) al =
     (case a of
        None \<Rightarrow> (Table n None, al)
      | Some ta \<Rightarrow> (Table n None, dict_set (val (alias_name ta)) n al))"
| "unalias_tables (Identifier i) al = (Identifier i, al)"
| "unalias_tables (CompoundIdentifier c) al = (CompoundIdentifier c, al)"
| "unalias_tables (ExprWithAlias e a) al =
     (case unalias_tables e al of (e', al') \<Rightarrow> (ExprWithAlias e' a, al'))"
| "unalias_tables (UnnamedExpr e) al =
     (case unalias_tables e al of (e', al') \<Rightarrow> (UnnamedExpr e', al'))"
| "unalias_tables (Select cs) al =
     (case unalias_tables_list cs al of (cs', al') \<Rightarrow> (Select cs', al'))"
| "unalias_tables (Other k cs) al =
     (case unalias_tables_list cs al of (cs', al') \<Rightarrow> (Other k cs', al'))"
| "unalias_tables_list [] al = ([], al)"
| "unalias_tables_list (c # cs) al =
     (case unalias_tables c al of (c', al') \<Rightarrow>
        (case unalias_tables_list cs al' of (cs', al'') \<Rightarrow> (c' # cs', al'')))"

text \<open>
  The second inner loop rewrites every compound identifier:
  \<^verbatim>\<open>*_, table, column = cid\<close>, then the aliased table's name followed by the column when
  \<^verbatim>\<open>table["value"]\<close> is an alias, and \<^verbatim>\<open>prefix[: 5 - len(cid)] + cid\<close> otherwise.
\<close>

definition qualify_compound :: "ident list \<Rightarrow> aliases \<Rightarrow> ident list \<Rightarrow> error + ident list" where
  "qualify_compound prefix al cid =
     (if length cid < 2 then Inl ValueError
      else (let table = cid ! (length cid - 2); column = last cid in
            case dict_get al (val table) of
              Some n \<Rightarrow> Inr (n @ [column])
            | None \<Rightarrow> Inr (slice_to prefix (5 - int (length cid)) @ cid)))"

fun qualify_compounds :: "ident list \<Rightarrow> aliases \<Rightarrow> node \<Rightarrow> error + node"
  and qualify_compounds_list :: "ident list \<Rightarrow> aliases \<Rightarrow> node list \<Rightarrow> error + node list" where
  "qualify_compounds prefix al (Table n a) = Inr (Table n a)"
| "qualify_compounds prefix al (Identifier i) = Inr (Identifier i)"
| "qualify_compounds prefix al (CompoundIdentifier c) =
     (case qualify_compound prefix al c of
        Inl err \<Rightarrow> Inl err
      | Inr c' \<Rightarrow> Inr (CompoundIdentifier c'))"
| "qualify_compounds prefix al (ExprWithAlias e a) =
     (case qualify_compounds prefix al e of
        Inl err \<Rightarrow> Inl err
      | Inr e' \<Rightarrow> Inr (ExprWithAlias e' a))"
| "qualify_compounds prefix al (UnnamedExpr e) =
     (case qualify_compounds prefix al e of
        Inl err \<Rightarrow> Inl err
      | Inr e' \<Rightarrow> Inr (UnnamedExpr e'))"
| "qualify_compounds prefix al (Select cs) =
     (case qualify_compounds_list prefix al cs of
        Inl err \<Rightarrow> Inl err
      | Inr cs' \<Rightarrow> Inr (Select cs'))"
| "qualify_compounds prefix al (Other k cs) =
     (case qualify_compounds_list prefix al cs of
        Inl err \<Rightarrow> Inl err
      | Inr cs' \<Rightarrow> Inr (Other k cs'))"
| "qualify_compounds_list prefix al [] = Inr []"
| "qualify_compounds_list prefix al (c # cs) =
     (case qualify_compounds prefix al c of
        Inl err \<Rightarrow> Inl err
      | Inr c' \<Rightarrow>
          (case qualify_compounds_list prefix al cs of
             Inl err \<Rightarrow> Inl err
           | Inr cs' \<Rightarrow> Inr (c' # cs')))"

text \<open>
  The third inner loop resolves every bare identifier against the column lists of all
  the tables stored by the first loop:
  \<^verbatim>\<open>candidates = [key for key, value in columns.items() if id_["value"] in value]\<close>.
\<close>

definition occurs_in :: "string option \<Rightarrow> string list \<Rightarrow> bool" where
  "occurs_in v cols = (case v of None \<Rightarrow> False | Some s \<Rightarrow> s \<in> set cols)"

definition candidates :: "scope \<Rightarrow> ident \<Rightarrow> string list" where
  "candidates sc i = map fst (filter (\<lambda>(key, value). occurs_in (val i) value) (columns sc))"

definition qualify_identifier :: "scope \<Rightarrow> ident \<Rightarrow> error + ident list" where
  "qualify_identifier sc i =
     (let cands = candidates sc i in
      if cands = [] then Inl (ColumnNotFound i)
      else if length cands > 1 then Inl (ColumnAmbiguous i)
      else (case dict_get (tables sc) (hd cands) of
              None \<Rightarrow> Inl (KeyError (hd cands))
            | Some n \<Rightarrow> Inr (n @ [i])))"

fun qualify_identifiers :: "scope \<Rightarrow> node \<Rightarrow> error + node"
  and qualify_identifiers_list :: "scope \<Rightarrow> node list \<Rightarrow> error + node list" where
  "qualify_identifiers sc (Table n a) = Inr (Table n a)"
| "qualify_identifiers sc (Identifier i) =
     (case qualify_identifier sc i of
        Inl err \<Rightarrow> Inl err
      | Inr c \<Rightarrow> Inr (CompoundIdentifier c))"
| "qualify_identifiers sc (CompoundIdentifier c) = Inr (CompoundIdentifier c)"
| "qualify_identifiers sc (ExprWithAlias e a) =
     (case qualify_identifiers sc e of
        Inl err \<Rightarrow> Inl err
      | Inr e' \<Rightarrow> Inr (ExprWithAlias e' a))"
| "qualify_identifiers sc (UnnamedExpr e) =
     (case qualify_identifiers sc e of
        Inl err \<Rightarrow> Inl err
      | Inr e' \<Rightarrow> Inr (UnnamedExpr e'))"
| "qualify_identifiers sc (Select cs) =
     (case qualify_identifiers_list sc cs of
        Inl err \<Rightarrow> Inl err
      | Inr cs' \<Rightarrow> Inr (Select cs'))"
| "qualify_identifiers sc (Other k cs) =
     (case qualify_identifiers_list sc cs of
        Inl err \<Rightarrow> Inl err
      | Inr cs' \<Rightarrow> Inr (Other k cs'))"
| "qualify_identifiers_list sc [] = Inr []"
| "qualify_identifiers_list sc (c # cs) =
     (case qualify_identifiers sc c of
        Inl err \<Rightarrow> Inl err
      | Inr c' \<Rightarrow>
          (case qualify_identifiers_list sc cs of
             Inl err \<Rightarrow> Inl err
           | Inr cs' \<Rightarrow> Inr (c' # cs')))"

text \<open>The body of the loop over the selects, on the sub-nodes of one select.\<close>

definition prepare_select :: "ident list \<Rightarrow> scope \<Rightarrow> node list \<Rightarrow> error + node list" where
  "prepare_select prefix sc cs =
     (case unalias_tables_list cs [] of (cs1, table_aliases) \<Rightarrow>
        (case qualify_compounds_list prefix table_aliases cs1 of
           Inl err \<Rightarrow> Inl err
         | Inr cs2 \<Rightarrow> qualify_identifiers_list sc cs2))"

text \<open>
  Modelled from the spec: the search for the key \<^verbatim>\<open>Select\<close>, again
  \<^verbatim>\<open>find_nodes_by_key\<close>. A select that is found is handed to the loop body with
  everything below it, nested selects included, and the search does not enter it a second
  time. (Entering it again would change nothing: after the body has run, the tables below
  have no alias, no bare identifier is left, and every compound identifier has five parts
  or more than seven, which the rewriting leaves as they are.)
\<close>

fun prepare_selects :: "ident list \<Rightarrow> scope \<Rightarrow> node \<Rightarrow> error + node"
  and prepare_selects_list :: "ident list \<Rightarrow> scope \<Rightarrow> node list \<Rightarrow> error + node list" where
  "prepare_selects prefix sc (Table n a) = Inr (Table n a)"
| "prepare_selects prefix sc (Identifier i) = Inr (Identifier i)"
| "prepare_selects prefix sc (CompoundIdentifier c) = Inr (CompoundIdentifier c)"
| "prepare_selects prefix sc (ExprWithAlias e a) =
     (case prepare_selects prefix sc e of
        Inl err \<Rightarrow> Inl err
      | Inr e' \<Rightarrow> Inr (ExprWithAlias e' a))"
| "prepare_selects prefix sc (UnnamedExpr e) =
     (case prepare_selects prefix sc e of
        Inl err \<Rightarrow> Inl err
      | Inr e' \<Rightarrow> Inr (UnnamedExpr e'))"
| "prepare_selects prefix sc (Select cs) =
     (case prepare_select prefix sc cs of
        Inl err \<Rightarrow> Inl err
      | Inr cs' \<Rightarrow> Inr (Select cs'))"
| "prepare_selects prefix sc (Other k cs) =
     (case prepare_selects_list prefix sc cs of
        Inl err \<Rightarrow> Inl err
      | Inr cs' \<Rightarrow> Inr (Other k cs'))"
| "prepare_selects_list prefix sc [] = Inr []"
| "prepare_selects_list prefix sc (c # cs) =
     (case prepare_selects prefix sc c of
        Inl err \<Rightarrow> Inl err
      | Inr c' \<Rightarrow>
          (case prepare_selects_list prefix sc cs of
             Inl err \<Rightarrow> Inl err
           | Inr cs' \<Rightarrow> Inr (c' # cs')))"

text \<open>
  The last loop: \<^verbatim>\<open>parent["UnnamedExpr"] = expression_with_alias["expr"]\<close> and
  \<^verbatim>\<open>parent.pop("ExprWithAlias")\<close>, for the aliased expressions the search finds.
\<close>

fun remove_aliases :: "node \<Rightarrow> node"
  and remove_aliases_list :: "node list \<Rightarrow> node list" where
  "remove_aliases (Table n a) = Table n a"
| "remove_aliases (Identifier i) = Identifier i"
| "remove_aliases (CompoundIdentifier c) = CompoundIdentifier c"
| "remove_aliases (ExprWithAlias e a) = UnnamedExpr e"
| "remove_aliases (UnnamedExpr e) = UnnamedExpr (remove_aliases e)"
| "remove_aliases (Select cs) = Select (remove_aliases_list cs)"
| "remove_aliases (Other k cs) = Other k (remove_aliases_list cs)"
| "remove_aliases_list [] = []"
| "remove_aliases_list (c # cs) = remove_aliases c # remove_aliases_list cs"

text \<open>
  \<^verbatim>\<open>prepare_tree\<close> changes the tree in place and returns nothing; the model returns the
  tree as the call leaves it.
\<close>

definition prepare_tree ::
  "parse_tree \<Rightarrow> engine \<Rightarrow> string \<Rightarrow> string option \<Rightarrow> string option \<Rightarrow> error + parse_tree" where
  "prepare_tree tree engine database catalog schema =
     (let prefix = make_prefix database catalog schema in
      case qualify_tables_list prefix engine tree empty_scope of
        Inl err \<Rightarrow> Inl err
      | Inr (tree1, sc) \<Rightarrow>
          (case prepare_selects_list prefix sc tree1 of
             Inl err \<Rightarrow> Inl err
           | Inr tree2 \<Rightarrow> Inr (remove_aliases_list tree2)))"

section \<open>Verification\<close>

text \<open>
  \<^verbatim>\<open>sqloxide.parse_sql\<close> is the external parser, taken as a parameter: the statements of
  a text, or \<open>None\<close> where it raises.
\<close>

type_synonym parser = "string \<Rightarrow> parse_tree option"

text \<open>
  \<^verbatim>\<open>any(matches_permission(query, permission_statement) for permission_statement in ...)\<close>:
  each permission statement is a fresh object of this parse and is matched once, so what
  \<^verbatim>\<open>matches_permission\<close> writes into it is seen by nobody.
\<close>

fun any_statement :: "statement \<Rightarrow> statement list \<Rightarrow> bool" where
  "any_statement query [] = False"
| "any_statement query (permission_statement # rest) =
     (if matches_permission query permission_statement then True else any_statement query rest)"

text \<open>
  \<^verbatim>\<open>verify_statement\<close>: \<^verbatim>\<open>all\<close> over the permissions stops at the first permission that
  no statement satisfies, so later permissions are not parsed.
\<close>

fun verify_statement :: "parser \<Rightarrow> statement \<Rightarrow> string list \<Rightarrow> error + bool" where
  "verify_statement parse_sql query [] = Inr True"
| "verify_statement parse_sql query (permission # permissions) =
     (case parse_sql permission of
        None \<Rightarrow> Inl (ParseError permission)
      | Some permission_statements \<Rightarrow>
          if any_statement query permission_statements
          then verify_statement parse_sql query permissions
          else Inr False)"

fun all_statements :: "parser \<Rightarrow> statement list \<Rightarrow> string list \<Rightarrow> error + bool" where
  "all_statements parse_sql [] permissions = Inr True"
| "all_statements parse_sql (statement # rest) permissions =
     (case verify_statement parse_sql statement permissions of
        Inl err \<Rightarrow> Inl err
      | Inr ok \<Rightarrow> if ok then all_statements parse_sql rest permissions else Inr False)"

definition verify_query ::
  "parser \<Rightarrow> string \<Rightarrow> engine \<Rightarrow> string \<Rightarrow> string option \<Rightarrow> string option \<Rightarrow> string list
     \<Rightarrow> error + bool" where
  "verify_query parse_sql query engine database catalog schema permissions =
     (case parse_sql query of
        None \<Rightarrow> Inl (ParseError query)
      | Some tree \<Rightarrow>
          (case prepare_tree tree engine database catalog schema of
             Inl err \<Rightarrow> Inl err
           | Inr tree' \<Rightarrow> all_statements parse_sql tree' permissions))"

section \<open>Filters and requested dimensions\<close>

text \<open>
  \<^verbatim>\<open>FILTER_RE = re.compile(r"([\w\./_]+)(<=|<|>=|>|!=|=)(.+)")\<close>, used with
  \<^verbatim>\<open>match\<close>: anchored at the start, not at the end.

  The pattern is a \<^verbatim>\<open>str\<close> pattern, so \<^verbatim>\<open>\w\<close> is Unicode-aware: below code point 128 it
  is a letter, a digit or the underscore; from 128 on it is whatever the Unicode database
  of the interpreter classifies as alphanumeric, which is the parameter \<open>unicode_word\<close>.

  The first group is greedy and no comparison operator starts with a character of its
  class, so the group is the longest prefix of such characters; giving a character back
  never helps. The alternatives are tried in the order written, and the last group needs
  one character at least, none of them a newline, and takes all there are.
\<close>

definition is_word_char :: "(nat \<Rightarrow> bool) \<Rightarrow> nat \<Rightarrow> bool" where
  "is_word_char unicode_word c \<longleftrightarrow>
     (if c < 128
      then (48 \<le> c \<and> c \<le> 57) \<or> (65 \<le> c \<and> c \<le> 90) \<or> (97 \<le> c \<and> c \<le> 122) \<or> c = 95
      else unicode_word c)"

definition name_char :: "(nat \<Rightarrow> bool) \<Rightarrow> nat \<Rightarrow> bool" where
  "name_char unicode_word c \<longleftrightarrow> is_word_char unicode_word c \<or> c \<in> set (ascii ''./_'')"

definition newline :: nat where
  "newline = 10"

definition operators :: "pystr list" where
  "operators = map ascii [''<='', ''<'', ''>='', ''>'', ''!='', ''='']"

fun match_operator :: "pystr list \<Rightarrow> pystr \<Rightarrow> (pystr \<times> pystr) option" where
  "match_operator [] rest = None"
| "match_operator (op # ops) rest =
     (let after = drop (length op) rest in
      if take (length op) rest = op \<and> after \<noteq> [] \<and> hd after \<noteq> newline
      then Some (op, takeWhile (\<lambda>c. c \<noteq> newline) after)
      else match_operator ops rest)"

definition FILTER_RE_match :: "(nat \<Rightarrow> bool) \<Rightarrow> pystr \<Rightarrow> (pystr \<times> pystr \<times> pystr) option" where
  "FILTER_RE_match unicode_word text =
     (let name = takeWhile (name_char unicode_word) text;
          rest = dropWhile (name_char unicode_word) text in
      if name = [] then None
      else (case match_operator operators rest of
              None \<Rightarrow> None
            | Some (op, value) \<Rightarrow> Some (name, op, value)))"

datatype comparison = gt | ge | lt | le | eq | ne




text \<open>
  Two stand-ins for the examples below. Of the characters beyond ASCII the examples use
  \<^verbatim>\<open>e\<close> with an acute accent (code point 233) only, a letter, which \<^verbatim>\<open>\w\<close> matches;
  \<open>word_sample\<close> is \<^verbatim>\<open>\w\<close> on the ASCII characters and on that one, and the examples
  hold no other character.

  \<open>literal_eval_fragment\<close> is the part of \<^verbatim>\<open>ast.literal_eval\<close> that the examples need:
  the constants \<^verbatim>\<open>None\<close>, \<^verbatim>\<open>True\<close> and \<^verbatim>\<open>False\<close>, unsigned decimal integers without a
  leading zero, and strings in single quotes without quote, backslash or newline inside.
  A name other than the three constants, such as \<^verbatim>\<open>true\<close> or \<^verbatim>\<open>null\<close>, is not a
  literal: \<^verbatim>\<open>ast.literal_eval\<close> raises \<^verbatim>\<open>ValueError\<close> for it. Texts of any other shape
  are not covered, and no statement below applies the function to one.
\<close>

definition word_sample :: "nat \<Rightarrow> bool" where
  "word_sample c \<longleftrightarrow> c = 233"





text \<open>
  \<^verbatim>\<open>get_dimensions_from_filters\<close>: the loop adds the first group of each filter to the
  set and raises at the first filter that does not match.
\<close>

fun dimensions_loop :: "(nat \<Rightarrow> bool) \<Rightarrow> pystr list \<Rightarrow> pystr set \<Rightarrow> error + pystr set" where
  "dimensions_loop unicode_word [] dimensions = Inr dimensions"
| "dimensions_loop unicode_word (filter_text # filters) dimensions =
     (case FILTER_RE_match unicode_word filter_text of
        None \<Rightarrow> Inl (ExceptionText (ascii ''Invalid filter: '' @ filter_text))
      | Some (name, op, value) \<Rightarrow>
          dimensions_loop unicode_word filters (insert name dimensions))"

definition get_dimensions_from_filters :: "(nat \<Rightarrow> bool) \<Rightarrow> pystr list \<Rightarrow> error + pystr set" where
  "get_dimensions_from_filters unicode_word filters = dimensions_loop unicode_word filters {}"

section \<open>Nodes and databases\<close>

text \<open>
  Of a node, \<^verbatim>\<open>build.py\<close> reads \<^verbatim>\<open>name\<close>, \<^verbatim>\<open>expression\<close> and \<^verbatim>\<open>parents\<close>; of a
  database, \<^verbatim>\<open>id\<close>, \<^verbatim>\<open>cost\<close> and \<^verbatim>\<open>URI\<close>. The \<^verbatim>\<open>Node\<close> and \<^verbatim>\<open>Database\<close> classes in the
  sources are of an earlier version, without \<^verbatim>\<open>parents\<close> and \<^verbatim>\<open>cost\<close>; the fields are
  as \<^verbatim>\<open>build.py\<close> reads them and as the data model of the spec lists them (a database
  has a cost, lower preferred).

  The cost is a Python \<^verbatim>\<open>float\<close>, as the \<^verbatim>\<open>cost\<close> of a representation is in the sources:
  a number, one of the two infinities, or NaN. Only the order of the costs matters, so a
  number is a rational here. \<open>float_lt\<close> and \<open>float_le\<close> are \<^verbatim>\<open><\<close> and \<^verbatim>\<open><=\<close> of
  Python: false as soon as one side is NaN. \<open>float_key\<close> places the values that are not
  NaN in their order.
\<close>

datatype pyfloat = NaN | NegInf | Finite rat | PosInf

fun float_key :: "pyfloat \<Rightarrow> nat \<times> rat" where
  "float_key NegInf = (0, 0)"
| "float_key (Finite r) = (1, r)"
| "float_key PosInf = (2, 0)"
| "float_key NaN = (3, 0)"

definition float_lt :: "pyfloat \<Rightarrow> pyfloat \<Rightarrow> bool" where
  "float_lt a b \<longleftrightarrow> a \<noteq> NaN \<and> b \<noteq> NaN \<and> float_key a < float_key b"

definition float_le :: "pyfloat \<Rightarrow> pyfloat \<Rightarrow> bool" where
  "float_le a b \<longleftrightarrow> a \<noteq> NaN \<and> b \<noteq> NaN \<and> float_key a \<le> float_key b"

datatype dj_node = Node (node_name: string) (expression: "string option") (parents: "dj_node list")

record database =
  db_id :: "int option"
  cost :: pyfloat
  URI :: string

text \<open>
  The first block of \<^verbatim>\<open>get_query_for_node\<close>, up to the end of the check of the
  dimensions; it returns the requested dimensions, with which the function goes on.
  \<^verbatim>\<open>get_dimensions\<close> of \<^verbatim>\<open>datajunction.sql.dag\<close> is not part of the sources and is a
  parameter. \<^verbatim>\<open>sorted\<close> orders the invalid dimensions as Python orders \<^verbatim>\<open>str\<close>: by code
  points, lexicographically.
\<close>

definition check_dimensions ::
  "(nat \<Rightarrow> bool) \<Rightarrow> (dj_node \<Rightarrow> pystr list) \<Rightarrow> dj_node \<Rightarrow> pystr list \<Rightarrow> pystr list
     \<Rightarrow> error + pystr set" where
  "check_dimensions unicode_word get_dimensions node groupbys filters =
     (case get_dimensions_from_filters unicode_word filters of
        Inl err \<Rightarrow> Inl err
      | Inr from_filters \<Rightarrow>
          (let requested_dimensions = set groupbys \<union> from_filters;
               valid_dimensions = set (get_dimensions node) in
           if \<not> requested_dimensions \<subseteq> valid_dimensions
           then (let invalid = sorted_list_of_set (requested_dimensions - valid_dimensions);
                     plural = (if length invalid > 1 then ascii ''s'' else []) in
                 Inl (ExceptionText (ascii ''Invalid dimension'' @ plural @ ascii '': ''
                                       @ join (ascii '', '') invalid)))
           else Inr requested_dimensions))"

section \<open>Choosing the database\<close>

text \<open>\<^verbatim>\<open>str(n)\<close> for an integer, as the f-string of the error message formats it.\<close>

fun str_nat :: "nat \<Rightarrow> string" where
  "str_nat n = (if n < 10 then [''0123456789'' ! n]
                else str_nat (n div 10) @ [''0123456789'' ! (n mod 10)])"

definition str_int :: "int \<Rightarrow> string" where
  "str_int i = (if i < 0 then ''-'' @ str_nat (nat (- i)) else str_nat (nat i))"

text \<open>
  \<^verbatim>\<open>DJ_DATABASE_ID\<close> comes from \<^verbatim>\<open>datajunction.constants\<close>, which is not part of the
  sources; the migration that mentions it gives it the value 0.
\<close>

definition DJ_DATABASE_ID :: int where
  "DJ_DATABASE_ID = 0"

text \<open>
  The list comprehension
  \<^verbatim>\<open>[get_computable_databases(node, node_columns[node.name]) for node in nodes]\<close>.
  \<^verbatim>\<open>get_computable_databases\<close> of \<^verbatim>\<open>datajunction.sql.dag\<close> is not part of the sources
  and is a parameter; a node without an entry in \<^verbatim>\<open>node_columns\<close> raises \<^verbatim>\<open>KeyError\<close>.
\<close>

fun computable_sets ::
  "(dj_node \<Rightarrow> string set \<Rightarrow> database set) \<Rightarrow> (string \<rightharpoonup> string set) \<Rightarrow> dj_node list
     \<Rightarrow> error + database set list" where
  "computable_sets get_computable_databases node_columns [] = Inr []"
| "computable_sets get_computable_databases node_columns (node # nodes) =
     (case node_columns (node_name node) of
        None \<Rightarrow> Inl (KeyError (node_name node))
      | Some cols \<Rightarrow>
          (case computable_sets get_computable_databases node_columns nodes of
             Inl err \<Rightarrow> Inl err
           | Inr sets \<Rightarrow> Inr (get_computable_databases node cols # sets)))"

text \<open>
  \<^verbatim>\<open>sorted(databases, key=operator.attrgetter("cost"))\<close>. The sort of Python is stable
  and compares the keys by \<^verbatim>\<open><\<close>. When no cost is NaN the costs are totally ordered and
  the result is the stable sort by cost, as \<open>sort_key\<close> gives it. When a cost is NaN,
  \<^verbatim>\<open><\<close> is no order, and the list that comes out depends on which pairs the sorting
  algorithm happens to compare; the code does not fix that, and it is the parameter
  \<open>nan_sorted\<close>.
\<close>

definition sorted_by_cost :: "(database list \<Rightarrow> database list) \<Rightarrow> database list \<Rightarrow> database list" where
  "sorted_by_cost nan_sorted databases =
     (if list_ex (\<lambda>d. cost d = NaN) databases then nan_sorted databases
      else sort_key (\<lambda>d. float_key (cost d)) databases)"

text \<open>
  A stand-in for \<open>nan_sorted\<close> in the examples below. The sort of Python starts by
  looking for the run at the head of the list that is in order already, comparing each
  key with the key before it by \<^verbatim>\<open><\<close>. When no key is smaller than the key before it,
  that run is the whole list, and the list comes out as it went in. \<open>ascending_run\<close> is
  that test on the keys, and \<open>run_sorted\<close> is \<^verbatim>\<open>sorted\<close> on the lists that pass it. On
  the other lists it is the stable sort by cost, which is right when no cost is NaN;
  other lists with a NaN are not covered, and no statement below applies the function
  to one.
\<close>

fun ascending_run :: "pyfloat list \<Rightarrow> bool" where
  "ascending_run (a # b # rest) \<longleftrightarrow> \<not> float_lt b a \<and> ascending_run (b # rest)"
| "ascending_run [a] \<longleftrightarrow> True"
| "ascending_run [] \<longleftrightarrow> True"

definition run_sorted :: "database list \<Rightarrow> database list" where
  "run_sorted databases =
     (if ascending_run (map cost databases) then databases
      else sort_key (\<lambda>d. float_key (cost d)) databases)"

text \<open>
  \<^verbatim>\<open>get_database_for_nodes\<close>. With nodes, \<^verbatim>\<open>databases\<close> is a Python \<^verbatim>\<open>set\<close>, and both
  the search for \<^verbatim>\<open>database_id\<close> and \<^verbatim>\<open>sorted\<close> read it in the order in which the set
  yields its elements. That order is fixed by the implementation of \<^verbatim>\<open>set\<close>, not by the
  code; it is the parameter \<open>iteration\<close>, the list of the elements of a set as the set
  yields them. Without nodes, \<^verbatim>\<open>databases\<close> is the list that the session returns for
  \<^verbatim>\<open>select(Database).where(Database.id != DJ_DATABASE_ID)\<close>, the parameter
  \<open>session_databases\<close> being all the databases the session knows, in its order (the
  comparison is made in SQL, where a row without an id does not satisfy it).
\<close>

definition get_database_for_nodes ::
  "(database set \<Rightarrow> database list) \<Rightarrow> (database list \<Rightarrow> database list) \<Rightarrow> database list
     \<Rightarrow> (dj_node \<Rightarrow> string set \<Rightarrow> database set)
     \<Rightarrow> dj_node list \<Rightarrow> (string \<rightharpoonup> string set) \<Rightarrow> int option \<Rightarrow> error + database" where
  "get_database_for_nodes iteration nan_sorted session_databases get_computable_databases
       nodes node_columns database_id =
     (case (if nodes \<noteq> []
            then (case computable_sets get_computable_databases node_columns nodes of
                    Inl err \<Rightarrow> Inl err
                  | Inr sets \<Rightarrow> Inr (iteration (\<Inter> (set sets))))
            else Inr (filter (\<lambda>d. db_id d \<noteq> None \<and> db_id d \<noteq> Some DJ_DATABASE_ID)
                        session_databases)) of
        Inl err \<Rightarrow> Inl err
      | Inr databases \<Rightarrow>
          if databases = [] then Inl (Exception ''No valid database was found'')
          else (case database_id of
                  Some i \<Rightarrow>
                    (case find (\<lambda>d. db_id d = Some i) databases of
                       Some d \<Rightarrow> Inr d
                     | None \<Rightarrow> Inl (Exception (''Database ID '' @ str_int i @ '' is not valid'')))
                | None \<Rightarrow>
                    (case sorted_by_cost nan_sorted databases of
                       [] \<Rightarrow> Inl IndexError
                     | d # rest \<Rightarrow> Inr d)))"

section \<open>Replacing metrics in a projection\<close>

text \<open>
  \<^verbatim>\<open>get_new_projection_and_from\<close>. Its collaborators are parameters:
  \<^item> \<open>session\<close>: \<^verbatim>\<open>session.exec(select(Node).where(Node.name == name)).one_or_none()\<close>,
    the node of a name if there is one;
  \<^item> \<open>is_metric\<close>: \<^verbatim>\<open>is_metric\<close> of \<^verbatim>\<open>datajunction.sql.parse\<close>, not part of the
    sources;
  \<^item> \<open>metric_select\<close>: for the expression of a metric, the pair of
    \<^verbatim>\<open>get_expression_from_projection(subtree[0]["Query"]["body"]["Select"]["projection"][0])\<close>
    and \<^verbatim>\<open>subtree[0]["Query"]["body"]["Select"]["from"][0]\<close> with
    \<^verbatim>\<open>subtree = parse_sql(node.expression, dialect="ansi")\<close>, or the exception that the
    parser, a subscript or \<^verbatim>\<open>get_expression_from_projection\<close> (not part of the sources)
    raises.

  The loop carries \<^verbatim>\<open>parents\<close>, which the caller passes in and the function extends in
  place, the two result lists, and the local \<^verbatim>\<open>expression\<close>, which keeps its value from
  one iteration to the next and is unbound before the first assignment.
\<close>

record projection_state =
  st_parents :: "dj_node list"
  new_projection :: "node list"
  new_from :: "node list"
  st_expression :: "node option"

definition compound_name :: "ident list \<Rightarrow> error + string" where
  "compound_name parts =
     (if list_all (\<lambda>part. val part \<noteq> None) parts
      then Inr (join ''.'' (map (\<lambda>part. the (val part)) parts))
      else Inl TypeError)"

definition replace_metric ::
  "(string \<Rightarrow> dj_node option) \<Rightarrow> (string \<Rightarrow> bool) \<Rightarrow> (string \<Rightarrow> error + node \<times> node)
     \<Rightarrow> node \<Rightarrow> string option \<Rightarrow> ident option \<Rightarrow> projection_state \<Rightarrow> error + projection_state" where
  "replace_metric session is_metric metric_select projection_expression name_opt alias_opt st =
     (let alias_ident = (case alias_opt of
                           Some a \<Rightarrow> a
                         | None \<Rightarrow> Ident (Some (CHR 0x22)) name_opt) in
      case (case name_opt of None \<Rightarrow> None | Some n \<Rightarrow> session n) of
        None \<Rightarrow> Inr (st\<lparr>new_projection := new_projection st @ [projection_expression]\<rparr>)
      | Some node \<Rightarrow>
          if expression node = None \<or> expression node = Some [] \<or> \<not> is_metric (the (expression node))
          then Inl (Exception (''Not a valid metric: '' @ the name_opt))
          else (case (if st_parents st = [] then Inr (st_parents st @ parents node)
                      else if set (st_parents st) \<noteq> set (parents node)
                        then Inl (Exception ''All metrics should have the same parents'')
                      else Inr (st_parents st)) of
                  Inl err \<Rightarrow> Inl err
                | Inr parents' \<Rightarrow>
                    (case metric_select (the (expression node)) of
                       Inl err \<Rightarrow> Inl err
                     | Inr (expr, from_item) \<Rightarrow>
                         Inr (st\<lparr>st_parents := parents',
                                 new_projection := new_projection st @ [ExprWithAlias expr alias_ident],
                                 new_from := new_from st @ [from_item]\<rparr>))))"

definition projection_step ::
  "(string \<Rightarrow> dj_node option) \<Rightarrow> (string \<Rightarrow> bool) \<Rightarrow> (string \<Rightarrow> error + node \<times> node)
     \<Rightarrow> node \<Rightarrow> projection_state \<Rightarrow> error + projection_state" where
  "projection_step session is_metric metric_select projection_expression st =
     (case (case projection_expression of
              UnnamedExpr e \<Rightarrow> Inr (e, None)
            | ExprWithAlias e a \<Rightarrow> Inr (e, Some a)
            | _ \<Rightarrow> (if st_expression st = None then Inl UnboundLocalError
                    else Inl NotImplementedError)) of
        Inl err \<Rightarrow> Inl err
      | Inr (e, alias_opt) \<Rightarrow>
          (let st1 = st\<lparr>st_expression := Some e\<rparr> in
           case e of
             Identifier i \<Rightarrow>
               replace_metric session is_metric metric_select projection_expression
                 (val i) alias_opt st1
           | CompoundIdentifier parts \<Rightarrow>
               (case compound_name parts of
                  Inl err \<Rightarrow> Inl err
                | Inr n \<Rightarrow>
                    replace_metric session is_metric metric_select projection_expression
                      (Some n) alias_opt st1)
           | _ \<Rightarrow> Inr (st1\<lparr>new_projection := new_projection st1 @ [projection_expression]\<rparr>)))"

fun projection_loop ::
  "(string \<Rightarrow> dj_node option) \<Rightarrow> (string \<Rightarrow> bool) \<Rightarrow> (string \<Rightarrow> error + node \<times> node)
     \<Rightarrow> node list \<Rightarrow> projection_state \<Rightarrow> error + projection_state" where
  "projection_loop session is_metric metric_select [] st = Inr st"
| "projection_loop session is_metric metric_select (projection_expression # rest) st =
     (case projection_step session is_metric metric_select projection_expression st of
        Inl err \<Rightarrow> Inl err
      | Inr st' \<Rightarrow> projection_loop session is_metric metric_select rest st')"

text \<open>
  The function returns \<^verbatim>\<open>(new_projection, new_from)\<close>; the model adds \<^verbatim>\<open>parents\<close> as
  the call leaves it.
\<close>

definition get_new_projection_and_from ::
  "(string \<Rightarrow> dj_node option) \<Rightarrow> (string \<Rightarrow> bool) \<Rightarrow> (string \<Rightarrow> error + node \<times> node)
     \<Rightarrow> node list \<Rightarrow> dj_node list \<Rightarrow> error + (node list \<times> node list \<times> dj_node list)" where
  "get_new_projection_and_from session is_metric metric_select projection parents0 =
     (case projection_loop session is_metric metric_select projection
             \<lparr>st_parents = parents0, new_projection = [], new_from = [], st_expression = None\<rparr> of
        Inl err \<Rightarrow> Inl err
      | Inr st \<Rightarrow> Inr (new_projection st, new_from st, st_parents st))"

section \<open>Views of the tree\<close>

text \<open>
  Modelled from the spec: two more instances of the search \<^verbatim>\<open>find_nodes_by_key\<close>, which
  is not part of the sources. \<open>find_columns\<close> lists the nodes found for the keys
  \<^verbatim>\<open>Identifier\<close> and \<^verbatim>\<open>CompoundIdentifier\<close>, in document order; \<open>find_selects\<close> lists, for
  the key \<^verbatim>\<open>Select\<close>, the sub-nodes of each select that the loop of \<^verbatim>\<open>prepare_tree\<close>
  is run on: the selects that are not inside another select, each with everything below
  it (see \<open>prepare_selects\<close>).
\<close>

fun find_columns :: "node \<Rightarrow> node list"
  and find_columns_list :: "node list \<Rightarrow> node list" where
  "find_columns (Table n a) = []"
| "find_columns (Identifier i) = [Identifier i]"
| "find_columns (CompoundIdentifier c) = [CompoundIdentifier c]"
| "find_columns (ExprWithAlias e a) = find_columns e"
| "find_columns (UnnamedExpr e) = find_columns e"
| "find_columns (Select cs) = find_columns_list cs"
| "find_columns (Other k cs) = find_columns_list cs"
| "find_columns_list [] = []"
| "find_columns_list (c # cs) = find_columns c @ find_columns_list cs"

fun find_selects :: "node \<Rightarrow> node list list"
  and find_selects_list :: "node list \<Rightarrow> node list list" where
  "find_selects (Table n a) = []"
| "find_selects (Identifier i) = []"
| "find_selects (CompoundIdentifier c) = []"
| "find_selects (ExprWithAlias e a) = find_selects e"
| "find_selects (UnnamedExpr e) = find_selects e"
| "find_selects (Select cs) = [cs]"
| "find_selects (Other k cs) = find_selects_list cs"
| "find_selects_list [] = []"
| "find_selects_list (c # cs) = find_selects c @ find_selects_list cs"

text \<open>The tree with every table name qualified, and the tree with every table alias removed.\<close>

fun rename_tables :: "ident list \<Rightarrow> node \<Rightarrow> node"
  and rename_tables_list :: "ident list \<Rightarrow> node list \<Rightarrow> node list" where
  "rename_tables prefix (Table n a) = Table (qualify_name prefix n) a"
| "rename_tables prefix (Identifier i) = Identifier i"
| "rename_tables prefix (CompoundIdentifier c) = CompoundIdentifier c"
| "rename_tables prefix (ExprWithAlias e a) = ExprWithAlias (rename_tables prefix e) a"
| "rename_tables prefix (UnnamedExpr e) = UnnamedExpr (rename_tables prefix e)"
| "rename_tables prefix (Select cs) = Select (rename_tables_list prefix cs)"
| "rename_tables prefix (Other k cs) = Other k (rename_tables_list prefix cs)"
| "rename_tables_list prefix [] = []"
| "rename_tables_list prefix (c # cs) = rename_tables prefix c # rename_tables_list prefix cs"

fun strip_table_aliases :: "node \<Rightarrow> node"
  and strip_table_aliases_list :: "node list \<Rightarrow> node list" where
  "strip_table_aliases (Table n a) = Table n None"
| "strip_table_aliases (Identifier i) = Identifier i"
| "strip_table_aliases (CompoundIdentifier c) = CompoundIdentifier c"
| "strip_table_aliases (ExprWithAlias e a) = ExprWithAlias (strip_table_aliases e) a"
| "strip_table_aliases (UnnamedExpr e) = UnnamedExpr (strip_table_aliases e)"
| "strip_table_aliases (Select cs) = Select (strip_table_aliases_list cs)"
| "strip_table_aliases (Other k cs) = Other k (strip_table_aliases_list cs)"
| "strip_table_aliases_list [] = []"
| "strip_table_aliases_list (c # cs) = strip_table_aliases c # strip_table_aliases_list cs"

text \<open>
  The two dicts after the first loop, from the qualified names of the tables of the tree
  in document order; and the aliases of a select, from its tables.
\<close>

definition scope_step :: "engine \<Rightarrow> scope \<Rightarrow> ident list \<Rightarrow> scope" where
  "scope_step engine sc n =
     (case get_column_names engine n of
        Inl err \<Rightarrow> sc
      | Inr cols \<Rightarrow> \<lparr>columns = dict_set (table_key n) cols (columns sc),
                     tables = dict_set (table_key n) n (tables sc)\<rparr>)"

definition alias_step :: "aliases \<Rightarrow> node \<Rightarrow> aliases" where
  "alias_step al t =
     (case talias t of
        None \<Rightarrow> al
      | Some ta \<Rightarrow> dict_set (val (alias_name ta)) (table_name t) al)"

definition select_aliases :: "ident list \<Rightarrow> node list \<Rightarrow> aliases" where
  "select_aliases prefix cs = foldl alias_step [] (find_tables_list (rename_tables_list prefix cs))"

text \<open>What the loop over a select does to one column reference of the select.\<close>

definition rewritten :: "ident list \<Rightarrow> aliases \<Rightarrow> scope \<Rightarrow> node \<Rightarrow> node \<Rightarrow> bool" where
  "rewritten prefix al sc old new =
     (case old of
        CompoundIdentifier c \<Rightarrow>
          (\<exists>c'. qualify_compound prefix al c = Inr c' \<and> new = CompoundIdentifier c')
      | Identifier i \<Rightarrow>
          (\<exists>c'. qualify_identifier sc i = Inr c' \<and> new = CompoundIdentifier c')
      | _ \<Rightarrow> new = old)"

section \<open>The test scenario of the verifier\<close>

text \<open>
  \<^verbatim>\<open>tests/auth/verifier_test.py\<close>: the table \<^verbatim>\<open>sales (event_time, price)\<close> in the schema
  \<^verbatim>\<open>main\<close>, the query \<^verbatim>\<open>SELECT s.event_time, SUM(price) AS sum_price FROM sales AS s;\<close>
  and four permissions. The trees are what the parser returns for these texts, reduced to
  the productions of the model.
\<close>

definition plain :: "string \<Rightarrow> ident" where
  "plain s = Ident None (Some s)"

definition sales_query :: parse_tree where
  "sales_query =
     [Other ''Query'' [Select
        [Other ''projection''
           [UnnamedExpr (CompoundIdentifier [plain ''s'', plain ''event_time'']),
            ExprWithAlias (Other ''Function'' [Identifier (plain ''price'')]) (plain ''sum_price'')],
         Other ''from'' [Table [plain ''sales''] (Some (TableAlias (plain ''s'') []))]]]]"

definition select_star_from :: "string list \<Rightarrow> parse_tree" where
  "select_star_from parts =
     [Other ''Query'' [Select
        [Other ''projection'' [Other ''Wildcard'' []],
         Other ''from'' [Table (map plain parts) None]]]]"

definition sales_text :: string where
  "sales_text = ''SELECT s.event_time, SUM(price) AS sum_price FROM sales AS s;''"

definition test_parser :: parser where
  "test_parser text =
     (if text = sales_text then Some sales_query
      else if text = ''SELECT * FROM postgres'' then Some (select_star_from [''postgres''])
      else if text = ''SELECT * FROM postgres.dev''
        then Some (select_star_from [''postgres'', ''dev''])
      else if text = ''SELECT * FROM postgres.null.main.sales''
        then Some (select_star_from [''postgres'', ''null'', ''main'', ''sales''])
      else if text = ''SELECT * FROM postgres.null.dev.sales''
        then Some (select_star_from [''postgres'', ''null'', ''dev'', ''sales''])
      else None)"

definition test_engine :: engine where
  "test_engine table schema =
     (if table = Some ''sales'' \<and> schema = Some ''main'' then Some [''event_time'', ''price'']
      else None)"

section \<open>Sample data\<close>

text \<open>
  Databases of several costs, one of them with the cost NaN; orders in which a set may
  yield them; nodes with their computable databases and referenced columns; the valid
  dimensions of a node and the columns of a filter, one of them with a name that starts
  with an accented letter; and metric nodes with the parts of their defining selects.
\<close>

definition first_database :: database where
  "first_database = \<lparr>db_id = Some 1, cost = Finite 1, URI = ''sqlite://first''\<rparr>"

definition second_database :: database where
  "second_database = \<lparr>db_id = Some 2, cost = Finite 1, URI = ''sqlite://second''\<rparr>"

definition third_database :: database where
  "third_database = \<lparr>db_id = Some 3, cost = Finite (1 / 2), URI = ''sqlite://third''\<rparr>"

definition fourth_database :: database where
  "fourth_database = \<lparr>db_id = Some 4, cost = Finite (1 / 4), URI = ''sqlite://fourth''\<rparr>"

definition fifth_database :: database where
  "fifth_database = \<lparr>db_id = Some 5, cost = Finite (1 / 2), URI = ''sqlite://fifth''\<rparr>"

definition nan_database :: database where
  "nan_database = \<lparr>db_id = Some 6, cost = NaN, URI = ''sqlite://nan''\<rparr>"

definition first_then_second :: "database set \<Rightarrow> database list" where
  "first_then_second S = filter (\<lambda>d. d \<in> S) [first_database, second_database]"

definition second_then_first :: "database set \<Rightarrow> database list" where
  "second_then_first S = filter (\<lambda>d. d \<in> S) [second_database, first_database]"

definition by_id :: "database set \<Rightarrow> database list" where
  "by_id S = filter (\<lambda>d. d \<in> S)
     [first_database, second_database, third_database, fourth_database, fifth_database]"

definition by_id_reversed :: "database set \<Rightarrow> database list" where
  "by_id_reversed S = filter (\<lambda>d. d \<in> S)
     [fifth_database, fourth_database, third_database, second_database, first_database]"

definition first_nan_fourth :: "database set \<Rightarrow> database list" where
  "first_nan_fourth S = filter (\<lambda>d. d \<in> S) [first_database, nan_database, fourth_database]"

definition metric_node :: dj_node where
  "metric_node = Node ''metric'' (Some ''SELECT COUNT(*) FROM parent'') [Node ''parent'' None []]"

definition dimension_node :: dj_node where
  "dimension_node = Node ''dimension'' None []"

definition transform_node :: dj_node where
  "transform_node = Node ''transform'' (Some ''SELECT * FROM parent'') [Node ''parent'' None []]"

definition source_node :: dj_node where
  "source_node = Node ''source'' None []"

definition sample_columns :: "string \<rightharpoonup> string set" where
  "sample_columns = [''metric'' \<mapsto> {''parent.ds''}, ''dimension'' \<mapsto> {''id''},
                     ''transform'' \<mapsto> {''parent.ds''}, ''source'' \<mapsto> {}]"

definition both_databases :: "dj_node \<Rightarrow> string set \<Rightarrow> database set" where
  "both_databases node cols = {first_database, second_database}"

definition sample_computable :: "dj_node \<Rightarrow> string set \<Rightarrow> database set" where
  "sample_computable node cols =
     (if node_name node = ''metric''
      then {first_database, third_database, fourth_database, fifth_database}
      else if node_name node = ''dimension''
      then {first_database, second_database, third_database}
      else if node_name node = ''transform''
      then {first_database, second_database, third_database, fifth_database}
      else {second_database})"

definition with_nan :: "dj_node \<Rightarrow> string set \<Rightarrow> database set" where
  "with_nan node cols = {first_database, nan_database, fourth_database}"

definition parent_dimensions :: "dj_node \<Rightarrow> pystr list" where
  "parent_dimensions node = [ascii ''parent.ds'', ascii ''parent.user_id'', 233 # ascii ''t'']"

definition no_dimensions :: "dj_node \<Rightarrow> pystr list" where
  "no_dimensions node = []"


definition count_star :: node where
  "count_star = Other ''Function'' [Other ''Wildcard'' []]"

definition orphan_metric :: dj_node where
  "orphan_metric = Node ''orphan_metric'' (Some ''SELECT COUNT(*) FROM a'') []"

definition other_metric :: dj_node where
  "other_metric = Node ''other_metric'' (Some ''SELECT COUNT(*) FROM b'') [Node ''b'' None []]"

definition metric_session :: "string \<Rightarrow> dj_node option" where
  "metric_session = map_of [(''orphan_metric'', orphan_metric), (''other_metric'', other_metric),
                            (''metric'', metric_node)]"

definition metric_selects :: "string \<Rightarrow> error + node \<times> node" where
  "metric_selects text =
     (if text = ''SELECT COUNT(*) FROM a'' then Inr (count_star, Table [plain ''a''] None)
      else if text = ''SELECT COUNT(*) FROM b'' then Inr (count_star, Table [plain ''b''] None)
      else if text = ''SELECT COUNT(*) FROM parent'' then Inr (count_star, Table [plain ''parent''] None)
      else Inl (ParseError text))"

definition sales_scope :: scope where
  "sales_scope =
     \<lparr>columns = [(''postgres.null.main.sales'', [''event_time'', ''price''])],
      tables = [(''postgres.null.main.sales'',
                 [plain ''postgres'', Ident None None, plain ''main'', plain ''sales''])]\<rparr>"

definition no_columns_engine :: engine where
  "no_columns_engine table schema = Some []"

definition two_tables_query :: parse_tree where
  "two_tables_query =
     [Other ''Query'' [Select
        [Other ''projection'' [UnnamedExpr (Identifier (plain ''id''))],
         Other ''from'' [Table [plain ''sales''] None, Table [plain ''users''] None]]]]"

definition two_tables_engine :: engine where
  "two_tables_engine table schema =
     (if table = Some ''sales'' then Some [''id'', ''price'']
      else if table = Some ''users'' then Some [''id'', ''name'']
      else None)"

definition two_statements :: parse_tree where
  "two_statements =
     [Other ''Query'' [Select
        [Other ''projection'' [UnnamedExpr (Identifier (plain ''price''))],
         Other ''from'' [Table [plain ''orders''] None]]],
      Other ''Query'' [Select
        [Other ''projection'' [Other ''Wildcard'' []],
         Other ''from'' [Table [plain ''sales''] None]]]]"

definition orders_sales_engine :: engine where
  "orders_sales_engine table schema =
     (if table = Some ''orders'' \<and> schema = Some ''main'' then Some [''id'']
      else if table = Some ''sales'' \<and> schema = Some ''main'' then Some [''event_time'', ''price'']
      else None)"

section \<open>Notions used in the proofs\<close>

text \<open>
  The identifiers that the loops of \<^verbatim>\<open>matches_permission\<close> overwrite are exactly those
  they have compared, and an overwritten identifier compares as it did before: an allowed
  table as a loop finds it is the original one with some identifiers overwritten.
\<close>

definition touched :: "ident list \<Rightarrow> ident list \<Rightarrow> bool" where
  "touched a a' = list_all2 (\<lambda>x y. y = x \<or> y = null_out x) a a'"

definition touched_all :: "ident list list \<Rightarrow> ident list list \<Rightarrow> bool" where
  "touched_all as as' = list_all2 touched as as'"

text \<open>
  For the loops of \<^verbatim>\<open>prepare_tree\<close>: what the second and the third inner loop do to a
  column reference, selects with the same tables and column references, and the
  invariant of the two dicts of the first loop.
\<close>

definition same_content :: "node list \<Rightarrow> node list \<Rightarrow> bool" where
  "same_content cs cs' \<longleftrightarrow>
     find_columns_list cs' = find_columns_list cs \<and> find_tables_list cs' = find_tables_list cs"

definition rel_compound :: "ident list \<Rightarrow> aliases \<Rightarrow> node \<Rightarrow> node \<Rightarrow> bool" where
  "rel_compound p al old new =
     (case old of
        CompoundIdentifier c \<Rightarrow> (\<exists>c'. qualify_compound p al c = Inr c' \<and> new = CompoundIdentifier c')
      | _ \<Rightarrow> new = old)"

definition rel_identifier :: "scope \<Rightarrow> node \<Rightarrow> node \<Rightarrow> bool" where
  "rel_identifier sc old new =
     (case old of
        Identifier i \<Rightarrow> (\<exists>c'. qualify_identifier sc i = Inr c' \<and> new = CompoundIdentifier c')
      | _ \<Rightarrow> new = old)"

definition scope_ok :: "engine \<Rightarrow> ident list list \<Rightarrow> scope \<Rightarrow> bool" where
  "scope_ok e names sc \<longleftrightarrow>
     map fst (columns sc) = map fst (tables sc) \<and>
     distinct (map fst (columns sc)) \<and>
     fst ` set (columns sc) = table_key ` set names \<and>
     (\<forall>k n. dict_get (tables sc) k = Some n \<longrightarrow> table_key n = k \<and> n \<in> set names) \<and>
     (\<forall>k cols. dict_get (columns sc) k = Some cols \<longrightarrow>
        (\<exists>n\<in>set names. table_key n = k \<and> get_column_names e n = Inr cols))"

section \<open>Properties of permission matching\<close>

lemma null_out_idem: "null_out (null_out l) = null_out l"
  by (simp add: null_out_def)

lemma null_out_eq:
  "(null_out l = r) = (if val l = Some NULL then r = Ident (quote_style l) None else r = l)"
  by (auto simp: null_out_def)

lemma touched_refl: "touched a a"
  by (simp add: touched_def list_all2_refl)

lemma touched_all_refl: "touched_all as as"
  by (simp add: touched_all_def list_all2_refl touched_refl)

lemma zip_loop_touched:
  "touched a a' \<Longrightarrow> touched a (fst (zip_loop a' t)) \<and>
     snd (zip_loop a' t) = list_all (\<lambda>(l, r). null_out l = r) (zip a t)"
proof (induction a' t arbitrary: a rule: zip_loop.induct)
  case (1 rs)
  then show ?case by (simp add: touched_def)
next
  case (2 l ls)
  then show ?case by (simp add: touched_def)
next
  case (3 l ls r rs)
  from "3.prems" obtain x xs where a: "a = x # xs" and x: "l = x \<or> l = null_out x"
    and xs: "touched xs ls"
    by (auto simp: touched_def list_all2_Cons2)
  from x have nl: "null_out l = null_out x" by (auto simp: null_out_idem)
  show ?case
  proof (cases "null_out l = r")
    case True
    with "3.IH"[OF refl _ xs] have "touched xs (fst (zip_loop ls rs))"
      and "snd (zip_loop ls rs) = list_all (\<lambda>(l, r). null_out l = r) (zip xs rs)" by auto
    with True nl a show ?thesis
      by (auto simp: touched_def split: prod.splits)
  next
    case False
    with nl a xs show ?thesis by (auto simp: touched_def)
  qed
qed

lemma allowed_loop_touched:
  "touched_all as as' \<Longrightarrow> touched_all as (fst (allowed_loop as' t m)) \<and>
     snd (allowed_loop as' t m) =
       (m \<or> (\<exists>a\<in>set as. list_all (\<lambda>(l, r). null_out l = r) (zip a t)))"
proof (induction as' t m arbitrary: as rule: allowed_loop.induct)
  case (1 tname match)
  then show ?case by (simp add: touched_all_def)
next
  case (2 a' as' tname match)
  from "2.prems" obtain a rest where as: "as = a # rest" and a: "touched a a'"
    and rest: "touched_all rest as'"
    by (auto simp: touched_all_def list_all2_Cons2)
  obtain a'' ok where z: "zip_loop a' tname = (a'', ok)" by (cases "zip_loop a' tname")
  from zip_loop_touched[OF a, of tname] z have a'': "touched a a''"
    and ok: "ok = list_all (\<lambda>(l, r). null_out l = r) (zip a tname)" by auto
  from "2.IH"[OF z[symmetric] rest]
  have "touched_all rest (fst (allowed_loop as' tname (match \<or> ok)))"
    and "snd (allowed_loop as' tname (match \<or> ok)) =
       ((match \<or> ok) \<or> (\<exists>a\<in>set rest. list_all (\<lambda>(l, r). null_out l = r) (zip a tname)))"
    by auto
  with a'' ok as z show ?case
    by (auto simp: touched_all_def split: prod.splits)
qed

lemma tables_loop_touched:
  "touched_all as as' \<Longrightarrow>
     snd (tables_loop as' ts) =
       (\<forall>t\<in>set ts. \<exists>a\<in>set as. list_all (\<lambda>(l, r). null_out l = r) (zip a t))"
proof (induction as' ts rule: tables_loop.induct)
  case (1 allowed)
  then show ?case by simp
next
  case (2 allowed t ts)
  obtain allowed' m where al: "allowed_loop allowed t False = (allowed', m)"
    by (cases "allowed_loop allowed t False")
  from allowed_loop_touched[OF "2.prems", of t False] al
  have t': "touched_all as allowed'"
    and m: "m = (\<exists>a\<in>set as. list_all (\<lambda>(l, r). null_out l = r) (zip a t))" by auto
  show ?case
  proof (cases m)
    case True
    with "2.IH"[OF al[symmetric] _ t'] al m show ?thesis by auto
  next
    case False
    with al m show ?thesis by auto
  qed
qed

lemma matches_permission_tables:
  "matches_permission query permission \<longleftrightarrow>
     (\<forall>t\<in>set (find_tables query). \<exists>a\<in>set (find_tables permission).
        list_all (\<lambda>(l, r). null_out l = r) (zip (table_name a) (table_name t)))"
  unfolding matches_permission_def matches_permission_run_def
  by (simp add: tables_loop_touched[OF touched_all_refl])

text \<open>
  C1, as the code has it. A query statement matches a permission statement iff each of
  its tables agrees with some table of the permission, part by part over the parts that
  both names have. A permission part with the value \<^verbatim>\<open>"null"\<close> agrees with the query part
  of the same quote style whose value is \<^verbatim>\<open>None\<close>, and with no other; any other
  permission part agrees with the equal query part only. So \<^verbatim>\<open>"null"\<close> stands for an
  absent part (a catalog or schema that the caller left out), not for any value.
\<close>

theorem matches_permission_null_is_absent:
  "matches_permission query permission \<longleftrightarrow>
     (\<forall>t\<in>set (find_tables query). \<exists>a\<in>set (find_tables permission).
        list_all (\<lambda>(l, r). if val l = Some NULL then r = Ident (quote_style l) None else r = l)
          (zip (table_name a) (table_name t)))"
  by (simp add: matches_permission_tables null_out_eq)

theorem matches_permission_null_is_absent_witness:
  "matches_permission
     (Select [Table [plain ''postgres'', Ident None None, plain ''main'', plain ''sales''] None])
     (Select [Table [plain ''postgres'', plain ''null'', plain ''main'', plain ''sales''] None])"
  using matches_permission_null_is_absent
    [of "Select [Table [plain ''postgres'', Ident None None, plain ''main'', plain ''sales''] None]"
        "Select [Table [plain ''postgres'', plain ''null'', plain ''main'', plain ''sales''] None]"]
  by (simp add: plain_def NULL_def)

text \<open>
  C1 as the spec states it fails: the pattern \<^verbatim>\<open>("null", "catalog", "schema", "table")\<close>
  does not match the query table \<^verbatim>\<open>("db", "catalog", "schema", "table")\<close>.
\<close>

theorem matches_permission_wildcard_counterexample:
  "\<not> matches_permission
       (Select [Table [plain ''db'', plain ''catalog'', plain ''schema'', plain ''table''] None])
       (Select [Table [plain ''null'', plain ''catalog'', plain ''schema'', plain ''table''] None])"
  by (simp add: matches_permission_tables null_out_def plain_def NULL_def)

section \<open>Properties of verification\<close>

lemma any_statement_iff:
  "any_statement query pss \<longleftrightarrow> (\<exists>ps\<in>set pss. matches_permission query ps)"
  by (induction pss) auto

lemma verify_statement_true:
  "verify_statement parse_sql query permissions = Inr True \<longleftrightarrow>
     (\<forall>p\<in>set permissions. \<exists>pss. parse_sql p = Some pss \<and>
        (\<exists>ps\<in>set pss. matches_permission query ps))"
  by (induction permissions) (auto simp: any_statement_iff split: option.splits)

lemma verify_statement_parsed:
  "\<forall>p\<in>set permissions. parse_sql p \<noteq> None \<Longrightarrow>
   verify_statement parse_sql query permissions =
     Inr (\<forall>p\<in>set permissions. \<exists>ps\<in>set (the (parse_sql p)). matches_permission query ps)"
  by (induction permissions) (auto simp: any_statement_iff split: option.splits)

lemma all_statements_true:
  "all_statements parse_sql tree permissions = Inr True \<longleftrightarrow>
     (\<forall>statement\<in>set tree. verify_statement parse_sql statement permissions = Inr True)"
  by (induction tree) (auto split: sum.splits)

lemma all_statements_parsed:
  "\<forall>p\<in>set permissions. parse_sql p \<noteq> None \<Longrightarrow>
   all_statements parse_sql tree permissions =
     Inr (\<forall>statement\<in>set tree. \<forall>p\<in>set permissions.
            \<exists>ps\<in>set (the (parse_sql p)). matches_permission statement ps)"
  by (induction tree) (auto simp: verify_statement_parsed split: sum.splits)

lemma test_verify_query_sales:
  "verify_query test_parser sales_text test_engine ''postgres'' None (Some ''main'')
     [''SELECT * FROM postgres.null.main.sales''] = Inr True"
  by code_simp

lemma test_prepare_tree_sales:
  "prepare_tree sales_query test_engine ''postgres'' None (Some ''main'') =
     Inr [Other ''Query'' [Select
        [Other ''projection''
           [UnnamedExpr (CompoundIdentifier [plain ''postgres'', Ident None None, plain ''main'',
              plain ''sales'', plain ''event_time'']),
            UnnamedExpr (Other ''Function'' [CompoundIdentifier [plain ''postgres'',
              Ident None None, plain ''main'', plain ''sales'', plain ''price'']])],
         Other ''from'' [Table [plain ''postgres'', Ident None None, plain ''main'',
              plain ''sales''] None]]]]"
  by code_simp

text \<open>
  C2. \<^verbatim>\<open>verify_query\<close> returns \<^verbatim>\<open>True\<close> iff the query parses, its tree is qualified
  without error, and every statement of the qualified tree matches, for each permission,
  at least one of the statements the permission parses to. When the query and all the
  permissions parse and qualification succeeds, the result is that truth value, so one
  statement failing one permission gives \<^verbatim>\<open>False\<close>.
\<close>

theorem verify_query_all_any:
  "(verify_query parse_sql query engine database catalog schema permissions = Inr True \<longleftrightarrow>
      (\<exists>tree tree'. parse_sql query = Some tree \<and>
         prepare_tree tree engine database catalog schema = Inr tree' \<and>
         (\<forall>statement\<in>set tree'. \<forall>p\<in>set permissions. \<exists>pss. parse_sql p = Some pss \<and>
            (\<exists>ps\<in>set pss. matches_permission statement ps)))) \<and>
   (\<forall>tree tree'. parse_sql query = Some tree \<and>
       prepare_tree tree engine database catalog schema = Inr tree' \<and>
       (\<forall>p\<in>set permissions. parse_sql p \<noteq> None) \<longrightarrow>
       verify_query parse_sql query engine database catalog schema permissions =
         Inr (\<forall>statement\<in>set tree'. \<forall>p\<in>set permissions.
                \<exists>ps\<in>set (the (parse_sql p)). matches_permission statement ps))"
proof (intro conjI allI impI)
  show "verify_query parse_sql query engine database catalog schema permissions = Inr True \<longleftrightarrow>
      (\<exists>tree tree'. parse_sql query = Some tree \<and>
         prepare_tree tree engine database catalog schema = Inr tree' \<and>
         (\<forall>statement\<in>set tree'. \<forall>p\<in>set permissions. \<exists>pss. parse_sql p = Some pss \<and>
            (\<exists>ps\<in>set pss. matches_permission statement ps)))"
    by (auto simp: verify_query_def all_statements_true verify_statement_true
        split: option.splits sum.splits)
next
  fix tree tree'
  assume "parse_sql query = Some tree \<and>
       prepare_tree tree engine database catalog schema = Inr tree' \<and>
       (\<forall>p\<in>set permissions. parse_sql p \<noteq> None)"
  then show "verify_query parse_sql query engine database catalog schema permissions =
         Inr (\<forall>statement\<in>set tree'. \<forall>p\<in>set permissions.
                \<exists>ps\<in>set (the (parse_sql p)). matches_permission statement ps)"
    by (simp add: verify_query_def all_statements_parsed)
qed

text \<open>
  C10. With an empty list of permissions \<^verbatim>\<open>verify_statement\<close> returns \<^verbatim>\<open>True\<close> for every
  statement, without calling the parser, and \<^verbatim>\<open>verify_query\<close> returns \<^verbatim>\<open>True\<close> for every
  query that parses and whose qualification succeeds.
\<close>

theorem verify_statement_no_permissions:
  "verify_statement parse_sql statement [] = Inr True \<and>
   (\<forall>tree tree'. parse_sql query = Some tree \<and>
       prepare_tree tree engine database catalog schema = Inr tree' \<longrightarrow>
       verify_query parse_sql query engine database catalog schema [] = Inr True)"
  by (auto simp: verify_query_def all_statements_true)

theorem verify_statement_no_permissions_witness:
  "verify_statement test_parser (hd sales_query) [] = Inr True \<and>
   verify_query test_parser sales_text test_engine ''postgres'' None (Some ''main'') [] = Inr True"
proof -
  have p: "test_parser sales_text = Some sales_query"
    by (simp add: test_parser_def)
  from verify_statement_no_permissions
    [of test_parser "hd sales_query" sales_text test_engine "''postgres''" None "Some ''main''"]
    p test_prepare_tree_sales
  show ?thesis by blast
qed

theorem verify_query_all_any_witness:
  "\<exists>tree tree'. test_parser sales_text = Some tree \<and>
     prepare_tree tree test_engine ''postgres'' None (Some ''main'') = Inr tree' \<and>
     (\<forall>statement\<in>set tree'. \<forall>p\<in>set [''SELECT * FROM postgres.null.main.sales''].
        \<exists>pss. test_parser p = Some pss \<and> (\<exists>ps\<in>set pss. matches_permission statement ps))"
  using verify_query_all_any
    [of test_parser sales_text test_engine "''postgres''" None "Some ''main''"
        "[''SELECT * FROM postgres.null.main.sales'']"]
    test_verify_query_sales
  by blast

section \<open>Properties of the choice of the database\<close>

lemma computable_sets_present:
  "\<forall>node\<in>set nodes. node_columns (node_name node) \<noteq> None \<Longrightarrow>
   computable_sets computable node_columns nodes =
     Inr (map (\<lambda>node. computable node (the (node_columns (node_name node)))) nodes)"
  by (induction nodes) auto

lemma hd_sort_key_min:
  assumes "xs \<noteq> []"
  shows "hd (sort_key f xs) \<in> set xs \<and> (\<forall>x\<in>set xs. f (hd (sort_key f xs)) \<le> f x)"
proof -
  let ?ys = "sort_key f xs"
  from assms have ne: "?ys \<noteq> []" by (metis length_0_conv length_sort)
  then obtain y ys where ys: "?ys = y # ys" by (cases ?ys) auto
  have "sorted (map f ?ys)" by simp
  with ys have "\<forall>x\<in>set ?ys. f y \<le> f x" by auto
  moreover have "set ?ys = set xs" by simp
  moreover have "y \<in> set ?ys" using ys by simp
  ultimately show ?thesis using ys by auto
qed

lemma hd_sort_key_first:
  assumes "xs \<noteq> []"
  shows "hd (sort_key f xs) = hd (filter (\<lambda>x. f x = Min (f ` set xs)) xs)"
proof -
  let ?ys = "sort_key f xs" and ?m = "Min (f ` set xs)"
  from assms have "?ys \<noteq> []" by (metis length_0_conv length_sort)
  then obtain y ys where ys: "?ys = y # ys" by (cases ?ys) auto
  from hd_sort_key_min[OF assms, of f] ys
  have y: "y \<in> set xs" and le: "\<forall>x\<in>set xs. f y \<le> f x" by auto
  have "f y = ?m"
  proof (rule antisym)
    show "?m \<le> f y" using y by simp
    show "f y \<le> ?m" using le assms by simp
  qed
  then have "filter (\<lambda>x. f x = ?m) ?ys = y # filter (\<lambda>x. f x = ?m) ys"
    using ys by simp
  moreover have "filter (\<lambda>x. f x = ?m) ?ys = filter (\<lambda>x. f x = ?m) xs"
    by (rule sort_key_stable)
  ultimately have "filter (\<lambda>x. f x = ?m) xs = y # filter (\<lambda>x. f x = ?m) ys"
    by simp
  then have "hd (filter (\<lambda>x. f x = ?m) xs) = y"
    by simp
  moreover have "hd ?ys = y" using ys by simp
  ultimately show ?thesis by simp
qed

lemma find_Some_set: "find P xs = Some x \<Longrightarrow> x \<in> set xs \<and> P x"
  by (auto simp: find_Some_iff)

lemma float_le_key: "a \<noteq> NaN \<Longrightarrow> b \<noteq> NaN \<Longrightarrow> float_le a b \<longleftrightarrow> float_key a \<le> float_key b"
  by (simp add: float_le_def)

lemma sorted_by_cost_numbers:
  "\<forall>d\<in>set dbs. cost d \<noteq> NaN \<Longrightarrow>
   sorted_by_cost nan_sorted dbs = sort_key (\<lambda>d. float_key (cost d)) dbs"
  by (simp add: sorted_by_cost_def list_ex_iff)

lemma first_of_sorted:
  assumes "dbs \<noteq> []" "\<forall>d\<in>set dbs. cost d \<noteq> NaN"
  shows "(case sorted_by_cost nan_sorted dbs of [] \<Rightarrow> Inl IndexError | d # rest \<Rightarrow> Inr d) =
         Inr (hd (sort_key (\<lambda>d. float_key (cost d)) dbs))"
proof -
  from assms(1) have "sort_key (\<lambda>d. float_key (cost d)) dbs \<noteq> []"
    by (metis length_0_conv length_sort)
  then show ?thesis
    by (cases "sort_key (\<lambda>d. float_key (cost d)) dbs")
       (simp_all add: sorted_by_cost_numbers[OF assms(2)])
qed

lemma lowest_filter:
  assumes "dbs \<noteq> []" "\<forall>d\<in>set dbs. cost d \<noteq> NaN"
  shows "filter (\<lambda>d. \<forall>d'\<in>set dbs. float_le (cost d) (cost d')) dbs =
         filter (\<lambda>d. float_key (cost d) = Min ((\<lambda>d. float_key (cost d)) ` set dbs)) dbs"
proof (rule filter_cong[OF refl])
  fix d assume d: "d \<in> set dbs"
  let ?k = "\<lambda>d. float_key (cost d)"
  have "(\<forall>d'\<in>set dbs. float_le (cost d) (cost d')) \<longleftrightarrow> (\<forall>d'\<in>set dbs. ?k d \<le> ?k d')"
    using assms(2) d by (simp add: float_le_key)
  also have "\<dots> \<longleftrightarrow> ?k d = Min (?k ` set dbs)"
    using assms(1) d by (auto simp: eq_Min_iff)
  finally show "(\<forall>d'\<in>set dbs. float_le (cost d) (cost d')) \<longleftrightarrow> ?k d = Min (?k ` set dbs)" .
qed

lemma sample_databases_differ:
  "first_database \<noteq> second_database" "first_database \<noteq> third_database"
  "first_database \<noteq> fourth_database" "first_database \<noteq> fifth_database"
  "second_database \<noteq> third_database" "second_database \<noteq> fourth_database"
  "second_database \<noteq> fifth_database" "third_database \<noteq> fourth_database"
  "third_database \<noteq> fifth_database" "fourth_database \<noteq> fifth_database"
  "nan_database \<noteq> first_database" "nan_database \<noteq> fourth_database"
  by (simp_all add: first_database_def second_database_def third_database_def
      fourth_database_def fifth_database_def nan_database_def)

lemma sample_intersection:
  "(\<Inter>node\<in>set [metric_node, dimension_node].
      sample_computable node (the (sample_columns (node_name node)))) =
   {first_database, third_database}"
  using sample_databases_differ
  by (auto simp: sample_computable_def metric_node_def dimension_node_def)

lemma sample_empty_intersection:
  "(\<Inter>node\<in>set [metric_node, source_node].
      sample_computable node (the (sample_columns (node_name node)))) = {}"
  using sample_databases_differ
  by (auto simp: sample_computable_def metric_node_def source_node_def)

lemma sample_tie_intersection:
  "(\<Inter>node\<in>set [metric_node, transform_node].
      sample_computable node (the (sample_columns (node_name node)))) =
   {first_database, third_database, fifth_database}"
  using sample_databases_differ
  by (auto simp: sample_computable_def metric_node_def transform_node_def)

lemma by_id_samples:
  "by_id {first_database, third_database} = [first_database, third_database]"
  "by_id {} = []"
  "by_id {first_database, third_database, fifth_database} =
     [first_database, third_database, fifth_database]"
  "by_id_reversed {first_database, third_database, fifth_database} =
     [fifth_database, third_database, first_database]"
  using sample_databases_differ by (auto simp: by_id_def by_id_reversed_def)

lemma sample_columns_present:
  "\<forall>node\<in>set [metric_node, dimension_node]. sample_columns (node_name node) \<noteq> None"
  "\<forall>node\<in>set [metric_node, source_node]. sample_columns (node_name node) \<noteq> None"
  "\<forall>node\<in>set [metric_node, transform_node]. sample_columns (node_name node) \<noteq> None"
  "\<forall>node\<in>set [metric_node]. sample_columns (node_name node) \<noteq> None"
  by (simp_all add: sample_columns_def metric_node_def dimension_node_def source_node_def
      transform_node_def)

lemma sample_fields:
  "cost first_database = Finite 1" "cost third_database = Finite (1 / 2)"
  "cost fifth_database = Finite (1 / 2)" "cost second_database = Finite 1"
  "cost nan_database = NaN" "cost fourth_database = Finite (1 / 4)"
  "db_id first_database = Some 1" "db_id third_database = Some 3" "db_id fifth_database = Some 5"
  by (simp_all add: first_database_def second_database_def third_database_def
      fourth_database_def fifth_database_def nan_database_def)

lemma str_int_4: "str_int 4 = ''4''"
  by (simp add: str_int_def)

text \<open>
  C3, as the code has it. For a non-empty list of nodes, each with an entry in
  \<^verbatim>\<open>node_columns\<close>, and a set that yields exactly its elements, \<^verbatim>\<open>get_database_for_nodes\<close>
  decides on the intersection \<open>I\<close> of the nodes' computable databases: an empty \<open>I\<close>
  raises \<^verbatim>\<open>No valid database was found\<close>; a given \<^verbatim>\<open>database_id\<close> returns a member of
  \<open>I\<close> with that id when there is one and raises \<^verbatim>\<open>Database ID ... is not valid\<close>
  otherwise; without \<^verbatim>\<open>database_id\<close>, and when no database of \<open>I\<close> has the cost NaN, the
  result is a member of \<open>I\<close> whose cost is \<^verbatim>\<open><=\<close> the cost of every member of \<open>I\<close>.
\<close>

theorem get_database_for_nodes_intersection:
  assumes nodes: "nodes \<noteq> []"
    and cols: "\<forall>node\<in>set nodes. node_columns (node_name node) \<noteq> None"
    and it: "set (iteration (\<Inter>node\<in>set nodes. computable node (the (node_columns (node_name node))))) =
               (\<Inter>node\<in>set nodes. computable node (the (node_columns (node_name node))))"
  shows "let I = (\<Inter>node\<in>set nodes. computable node (the (node_columns (node_name node))));
             result = get_database_for_nodes iteration nan_sorted session_databases computable
                        nodes node_columns database_id
         in (I = {} \<longrightarrow> result = Inl (Exception ''No valid database was found'')) \<and>
            (I \<noteq> {} \<longrightarrow>
               (\<forall>i. database_id = Some i \<longrightarrow>
                  (if \<exists>d\<in>I. db_id d = Some i
                   then \<exists>d\<in>I. db_id d = Some i \<and> result = Inr d
                   else result = Inl (Exception (''Database ID '' @ str_int i @ '' is not valid'')))) \<and>
               (database_id = None \<and> (\<forall>d\<in>I. cost d \<noteq> NaN) \<longrightarrow>
                  (\<exists>d\<in>I. result = Inr d \<and> (\<forall>d'\<in>I. float_le (cost d) (cost d')))))"
proof -
  define I where "I = (\<Inter>node\<in>set nodes. computable node (the (node_columns (node_name node))))"
  define dbs where "dbs = iteration I"
  let ?result = "get_database_for_nodes iteration nan_sorted session_databases computable
                        nodes node_columns database_id"
  have sets: "computable_sets computable node_columns nodes =
     Inr (map (\<lambda>node. computable node (the (node_columns (node_name node)))) nodes)"
    using cols by (rule computable_sets_present)
  have sdbs: "set dbs = I" using it by (simp add: dbs_def I_def)
  have res: "?result =
     (if dbs = [] then Inl (Exception ''No valid database was found'')
      else (case database_id of
              Some i \<Rightarrow> (case find (\<lambda>d. db_id d = Some i) dbs of
                           Some d \<Rightarrow> Inr d
                         | None \<Rightarrow> Inl (Exception (''Database ID '' @ str_int i @ '' is not valid'')))
            | None \<Rightarrow> (case sorted_by_cost nan_sorted dbs of
                         [] \<Rightarrow> Inl IndexError
                       | d # rest \<Rightarrow> Inr d)))"
    unfolding get_database_for_nodes_def dbs_def I_def using nodes by (simp add: sets)
  have a: "I = {} \<longrightarrow> ?result = Inl (Exception ''No valid database was found'')"
    using sdbs res by auto
  have b: "I \<noteq> {} \<longrightarrow> database_id = None \<and> (\<forall>d\<in>I. cost d \<noteq> NaN) \<longrightarrow>
     (\<exists>d\<in>I. ?result = Inr d \<and> (\<forall>d'\<in>I. float_le (cost d) (cost d')))"
  proof (intro impI)
    assume "I \<noteq> {}" and n: "database_id = None \<and> (\<forall>d\<in>I. cost d \<noteq> NaN)"
    then have ne: "dbs \<noteq> []" and nn: "\<forall>d\<in>set dbs. cost d \<noteq> NaN" using sdbs by auto
    let ?d = "hd (sort_key (\<lambda>d. float_key (cost d)) dbs)"
    from first_of_sorted[OF ne nn] res ne n have r: "?result = Inr ?d" by simp
    from hd_sort_key_min[OF ne, of "\<lambda>d. float_key (cost d)"]
    have m: "?d \<in> set dbs" and le: "\<forall>x\<in>set dbs. float_key (cost ?d) \<le> float_key (cost x)"
      by auto
    from m le nn have "\<forall>d'\<in>set dbs. float_le (cost ?d) (cost d')"
      by (simp add: float_le_key)
    with r m sdbs show "\<exists>d\<in>I. ?result = Inr d \<and> (\<forall>d'\<in>I. float_le (cost d) (cost d'))"
      by auto
  qed
  have c: "I \<noteq> {} \<longrightarrow> (\<forall>i. database_id = Some i \<longrightarrow>
                  (if \<exists>d\<in>I. db_id d = Some i
                   then \<exists>d\<in>I. db_id d = Some i \<and> ?result = Inr d
                   else ?result = Inl (Exception (''Database ID '' @ str_int i @ '' is not valid''))))"
  proof (intro impI allI)
    fix i assume "I \<noteq> {}" and s: "database_id = Some i"
    then have ne: "dbs \<noteq> []" using sdbs by auto
    show "if \<exists>d\<in>I. db_id d = Some i
                   then \<exists>d\<in>I. db_id d = Some i \<and> ?result = Inr d
                   else ?result = Inl (Exception (''Database ID '' @ str_int i @ '' is not valid''))"
    proof (cases "find (\<lambda>d. db_id d = Some i) dbs")
      case None
      then have "\<not> (\<exists>d\<in>I. db_id d = Some i)" using sdbs by (auto simp: find_None_iff)
      with None res ne s show ?thesis by simp
    next
      case (Some d)
      then have "d \<in> I \<and> db_id d = Some i" using sdbs find_Some_set by fastforce
      with Some res ne s show ?thesis by auto
    qed
  qed
  from a b c show ?thesis unfolding I_def Let_def by blast
qed

theorem get_database_for_nodes_intersection_witness:
  "get_database_for_nodes by_id run_sorted [] sample_computable
      [metric_node, dimension_node] sample_columns None = Inr third_database \<and>
   get_database_for_nodes by_id run_sorted [] sample_computable
      [metric_node, dimension_node] sample_columns (Some 1) = Inr first_database \<and>
   get_database_for_nodes by_id run_sorted [] sample_computable
      [metric_node, dimension_node] sample_columns (Some 4) =
        Inl (Exception ''Database ID 4 is not valid'') \<and>
   get_database_for_nodes by_id run_sorted [] sample_computable
      [metric_node, source_node] sample_columns None =
        Inl (Exception ''No valid database was found'')"
proof -
  have n: "[metric_node, dimension_node] \<noteq> []" "[metric_node, source_node] \<noteq> []" by simp_all
  have it1: "set (by_id (\<Inter>node\<in>set [metric_node, dimension_node].
      sample_computable node (the (sample_columns (node_name node))))) =
     (\<Inter>node\<in>set [metric_node, dimension_node].
      sample_computable node (the (sample_columns (node_name node))))"
    unfolding sample_intersection by (simp add: by_id_samples)
  have it2: "set (by_id (\<Inter>node\<in>set [metric_node, source_node].
      sample_computable node (the (sample_columns (node_name node))))) =
     (\<Inter>node\<in>set [metric_node, source_node].
      sample_computable node (the (sample_columns (node_name node))))"
    unfolding sample_empty_intersection by (simp add: by_id_samples)
  note t1 = get_database_for_nodes_intersection
    [where nodes = "[metric_node, dimension_node]" and node_columns = sample_columns
       and iteration = by_id and computable = sample_computable and nan_sorted = run_sorted
       and session_databases = "[]", OF n(1) sample_columns_present(1) it1,
     unfolded sample_intersection Let_def]
  note t2 = get_database_for_nodes_intersection
    [where nodes = "[metric_node, source_node]" and node_columns = sample_columns
       and iteration = by_id and computable = sample_computable and nan_sorted = run_sorted
       and session_databases = "[]" and database_id = None,
     OF n(2) sample_columns_present(2) it2, unfolded sample_empty_intersection Let_def]
  have a: "get_database_for_nodes by_id run_sorted [] sample_computable
      [metric_node, dimension_node] sample_columns None = Inr third_database"
    using t1[where database_id = None] sample_databases_differ
    by (auto simp: sample_fields float_le_def)
  have b: "get_database_for_nodes by_id run_sorted [] sample_computable
      [metric_node, dimension_node] sample_columns (Some 1) = Inr first_database"
    using t1[where database_id = "Some 1"] by (auto simp: sample_fields)
  have c: "get_database_for_nodes by_id run_sorted [] sample_computable
      [metric_node, dimension_node] sample_columns (Some 4) =
        Inl (Exception ''Database ID 4 is not valid'')"
    using t1[where database_id = "Some 4"] by (auto simp: sample_fields str_int_4)
  have d: "get_database_for_nodes by_id run_sorted [] sample_computable
      [metric_node, source_node] sample_columns None =
        Inl (Exception ''No valid database was found'')"
    using t2 by simp
  from a b c d show ?thesis by blast
qed

text \<open>
  C3 as the spec states it fails when a database of the intersection has the cost NaN.
  The set yields a database of cost 1, one of cost NaN and one of cost 1/4. No key is
  \<^verbatim>\<open><\<close> the key before it, as every comparison with NaN is false, so \<^verbatim>\<open>sorted\<close> leaves
  the list as it is and the database of cost 1 is returned, although the database of
  cost 1/4 is in the intersection.
\<close>

theorem get_database_for_nodes_nan_counterexample:
  "get_database_for_nodes first_nan_fourth run_sorted [] with_nan [metric_node]
       sample_columns None = Inr first_database \<and>
   fourth_database \<in> with_nan metric_node {''parent.ds''} \<and>
   float_lt (cost fourth_database) (cost first_database)"
  using sample_databases_differ
  by (simp add: get_database_for_nodes_def sorted_by_cost_def run_sorted_def with_nan_def
      first_nan_fourth_def sample_columns_def metric_node_def sample_fields float_le_def
      float_lt_def)

text \<open>
  C9, as the code has it. Without \<^verbatim>\<open>database_id\<close>, and when no candidate has the cost
  NaN, the result is the first database of lowest cost in the order in which
  \<^verbatim>\<open>databases\<close> is read: the order in which the set of the intersection yields its
  elements, or, without nodes, the order of the session's list. \<^verbatim>\<open>sorted\<close> is stable, so
  among databases of equal cost that order decides.
\<close>

theorem get_database_for_nodes_first_cheapest:
  assumes "\<forall>node\<in>set nodes. node_columns (node_name node) \<noteq> None"
  shows "let dbs = (if nodes \<noteq> []
                    then iteration (\<Inter>node\<in>set nodes. computable node (the (node_columns (node_name node))))
                    else filter (\<lambda>d. db_id d \<noteq> None \<and> db_id d \<noteq> Some DJ_DATABASE_ID)
                           session_databases)
         in dbs \<noteq> [] \<and> (\<forall>d\<in>set dbs. cost d \<noteq> NaN) \<longrightarrow>
            get_database_for_nodes iteration nan_sorted session_databases computable
                nodes node_columns None =
              Inr (hd (filter (\<lambda>d. \<forall>d'\<in>set dbs. float_le (cost d) (cost d')) dbs))"
proof -
  define dbs where "dbs = (if nodes \<noteq> []
                    then iteration (\<Inter>node\<in>set nodes. computable node (the (node_columns (node_name node))))
                    else filter (\<lambda>d. db_id d \<noteq> None \<and> db_id d \<noteq> Some DJ_DATABASE_ID)
                           session_databases)"
  have res: "get_database_for_nodes iteration nan_sorted session_databases computable
                nodes node_columns None =
     (if dbs = [] then Inl (Exception ''No valid database was found'')
      else (case sorted_by_cost nan_sorted dbs of [] \<Rightarrow> Inl IndexError | d # rest \<Rightarrow> Inr d))"
    unfolding get_database_for_nodes_def dbs_def using assms
    by (simp add: computable_sets_present)
  have "get_database_for_nodes iteration nan_sorted session_databases computable
                nodes node_columns None =
              Inr (hd (filter (\<lambda>d. \<forall>d'\<in>set dbs. float_le (cost d) (cost d')) dbs))"
    if ne: "dbs \<noteq> []" and nn: "\<forall>d\<in>set dbs. cost d \<noteq> NaN"
    using res ne first_of_sorted[OF ne nn] hd_sort_key_first[OF ne, of "\<lambda>d. float_key (cost d)"]
      lowest_filter[OF ne nn]
    by simp
  then show ?thesis unfolding dbs_def Let_def by blast
qed

theorem get_database_for_nodes_first_cheapest_witness:
  "get_database_for_nodes by_id run_sorted [] sample_computable
      [metric_node, transform_node] sample_columns None = Inr third_database \<and>
   get_database_for_nodes by_id_reversed run_sorted [] sample_computable
      [metric_node, transform_node] sample_columns None = Inr fifth_database"
proof -
  note t = get_database_for_nodes_first_cheapest
    [where nodes = "[metric_node, transform_node]" and node_columns = sample_columns
       and computable = sample_computable and nan_sorted = run_sorted
       and session_databases = "[]", OF sample_columns_present(3),
     unfolded sample_tie_intersection Let_def]
  have a: "get_database_for_nodes by_id run_sorted [] sample_computable
      [metric_node, transform_node] sample_columns None = Inr third_database"
    using t[where iteration = by_id] sample_databases_differ
    by (simp add: by_id_samples sample_fields float_le_def)
  have b: "get_database_for_nodes by_id_reversed run_sorted [] sample_computable
      [metric_node, transform_node] sample_columns None = Inr fifth_database"
    using t[where iteration = by_id_reversed] sample_databases_differ
    by (simp add: by_id_samples sample_fields float_le_def)
  from a b show ?thesis by blast
qed

text \<open>
  C9 as the spec states it fails: the nodes, their referenced columns and their
  computable databases do not fix the result. Two databases of equal cost are both
  computable; a set that yields the first before the second gives the first, a set that
  yields the second before the first gives the second.
\<close>

theorem get_database_for_nodes_order_counterexample:
  "get_database_for_nodes first_then_second run_sorted [] both_databases [metric_node]
       sample_columns None = Inr first_database \<and>
   get_database_for_nodes second_then_first run_sorted [] both_databases [metric_node]
       sample_columns None = Inr second_database \<and>
   first_database \<noteq> second_database"
  using sample_databases_differ
  by (simp add: get_database_for_nodes_def sorted_by_cost_def both_databases_def
      first_then_second_def second_then_first_def sample_columns_def metric_node_def sample_fields)

section \<open>Properties of filters\<close>







lemma sample_matches:
  "FILTER_RE_match word_sample (233 # ascii ''t>=10'') = Some (233 # ascii ''t'', ascii ''>='', ascii ''10'')"
  "FILTER_RE_match word_sample (ascii ''a=true'') = Some (ascii ''a'', ascii ''='', ascii ''true'')"
  "FILTER_RE_match word_sample (ascii ''x'') = None"
  "FILTER_RE_match word_sample (ascii ''b<1'') = Some (ascii ''b'', ascii ''<'', ascii ''1'')"
  "FILTER_RE_match word_sample (ascii ''parent.user_id>1'') =
     Some (ascii ''parent.user_id'', ascii ''>'', ascii ''1'')"
  by code_simp+




lemma ascii_append: "ascii s @ ascii t = ascii (s @ t)"
  by (simp add: ascii_def)




section \<open>Properties of the check of the dimensions\<close>

lemma dimensions_loop_find:
  "dimensions_loop unicode_word filters D =
     (case find (\<lambda>f. FILTER_RE_match unicode_word f = None) filters of
        Some f \<Rightarrow> Inl (ExceptionText (ascii ''Invalid filter: '' @ f))
      | None \<Rightarrow> Inr (D \<union> (\<lambda>f. fst (the (FILTER_RE_match unicode_word f))) ` set filters))"
  by (induction filters arbitrary: D) (auto split: option.splits)

lemma sample_invalid:
  "sorted_list_of_set {ascii ''zz.a'', ascii ''b.c''} = [ascii ''b.c'', ascii ''zz.a'']"
  by code_simp

lemma sample_difference:
  "{ascii ''parent.ds'', ascii ''zz.a'', ascii ''b.c'', ascii ''parent.user_id''}
     - {ascii ''parent.ds'', ascii ''parent.user_id'', 233 # ascii ''t''}
   = {ascii ''zz.a'', ascii ''b.c''}"
  by (auto simp: ascii_def)

text \<open>
  C4, as the code has it. When every filter matches \<^verbatim>\<open>FILTER_RE\<close>, the requested
  dimensions are the group-bys and the first groups of the filters, and
  \<^verbatim>\<open>get_query_for_node\<close> goes past the check iff they are all valid dimensions of the
  node; otherwise it raises \<^verbatim>\<open>Invalid dimension\<close> (\<^verbatim>\<open>Invalid dimensions\<close> for more than
  one) followed by the invalid ones, each once, sorted, separated by commas. When some
  filter does not match, it raises \<^verbatim>\<open>Invalid filter\<close> with the first such filter,
  whatever the group-bys, the other filters and the dimensions of the node are.
\<close>

theorem check_dimensions_subset:
  "let requested = set groupbys \<union> (\<lambda>f. fst (the (FILTER_RE_match unicode_word f))) ` set filters;
       valid = set (get_dimensions node);
       invalid = sorted_list_of_set (requested - valid);
       result = check_dimensions unicode_word get_dimensions node groupbys filters
   in ((\<forall>f\<in>set filters. FILTER_RE_match unicode_word f \<noteq> None) \<longrightarrow>
         (requested \<subseteq> valid \<longrightarrow> result = Inr requested) \<and>
         (\<not> requested \<subseteq> valid \<longrightarrow>
            result = Inl (ExceptionText (ascii ''Invalid dimension''
                                          @ (if length invalid > 1 then ascii ''s'' else [])
                                          @ ascii '': '' @ join (ascii '', '') invalid)) \<and>
            set invalid = requested - valid \<and> sorted invalid \<and> distinct invalid)) \<and>
      (\<forall>before f after.
         filters = before @ f # after \<and> FILTER_RE_match unicode_word f = None \<and>
         (\<forall>g\<in>set before. FILTER_RE_match unicode_word g \<noteq> None) \<longrightarrow>
         result = Inl (ExceptionText (ascii ''Invalid filter: '' @ f)))"
proof -
  have a: "find (\<lambda>f. FILTER_RE_match unicode_word f = None) filters = None"
    if "\<forall>f\<in>set filters. FILTER_RE_match unicode_word f \<noteq> None"
    using that by (simp add: find_None_iff)
  have b: "find (\<lambda>f. FILTER_RE_match unicode_word f = None) filters = Some f"
    if "filters = before @ f # after" "FILTER_RE_match unicode_word f = None"
      "\<forall>g\<in>set before. FILTER_RE_match unicode_word g \<noteq> None" for before f after
    using that by (induction before arbitrary: filters) auto
  show ?thesis
    unfolding Let_def
  proof (intro conjI allI impI)
    assume m: "\<forall>f\<in>set filters. FILTER_RE_match unicode_word f \<noteq> None"
    show "check_dimensions unicode_word get_dimensions node groupbys filters =
        Inr (set groupbys \<union> (\<lambda>f. fst (the (FILTER_RE_match unicode_word f))) ` set filters)"
      if "set groupbys \<union> (\<lambda>f. fst (the (FILTER_RE_match unicode_word f))) ` set filters
            \<subseteq> set (get_dimensions node)"
      using that
      by (simp add: check_dimensions_def get_dimensions_from_filters_def dimensions_loop_find
          a[OF m] Let_def)
  next
    assume m: "\<forall>f\<in>set filters. FILTER_RE_match unicode_word f \<noteq> None"
    assume n: "\<not> set groupbys \<union> (\<lambda>f. fst (the (FILTER_RE_match unicode_word f))) ` set filters
            \<subseteq> set (get_dimensions node)"
    let ?invalid = "sorted_list_of_set
          (set groupbys \<union> (\<lambda>f. fst (the (FILTER_RE_match unicode_word f))) ` set filters -
           set (get_dimensions node))"
    show "check_dimensions unicode_word get_dimensions node groupbys filters =
        Inl (ExceptionText (ascii ''Invalid dimension''
                              @ (if length ?invalid > 1 then ascii ''s'' else [])
                              @ ascii '': '' @ join (ascii '', '') ?invalid))"
      using n
      by (simp add: check_dimensions_def get_dimensions_from_filters_def dimensions_loop_find
          a[OF m] Let_def)
    show "set ?invalid =
        set groupbys \<union> (\<lambda>f. fst (the (FILTER_RE_match unicode_word f))) ` set filters -
        set (get_dimensions node)"
      by simp
    show "sorted ?invalid" by simp
    show "distinct ?invalid" by simp
  next
    fix before f after
    assume "filters = before @ f # after \<and> FILTER_RE_match unicode_word f = None \<and>
         (\<forall>g\<in>set before. FILTER_RE_match unicode_word g \<noteq> None)"
    then have "find (\<lambda>f. FILTER_RE_match unicode_word f = None) filters = Some f"
      using b by blast
    then show "check_dimensions unicode_word get_dimensions node groupbys filters =
        Inl (ExceptionText (ascii ''Invalid filter: '' @ f))"
      by (simp add: check_dimensions_def get_dimensions_from_filters_def dimensions_loop_find)
  qed
qed

theorem check_dimensions_subset_witness:
  "check_dimensions word_sample parent_dimensions metric_node [ascii ''parent.ds'']
     [ascii ''parent.user_id>1'', 233 # ascii ''t>=10'']
     = Inr {ascii ''parent.ds'', ascii ''parent.user_id'', 233 # ascii ''t''} \<and>
   check_dimensions word_sample parent_dimensions metric_node
     [ascii ''parent.ds'', ascii ''zz.a'', ascii ''b.c''] [ascii ''parent.user_id>1'']
     = Inl (ExceptionText (ascii ''Invalid dimensions: b.c, zz.a'')) \<and>
   check_dimensions word_sample parent_dimensions metric_node [ascii ''zz.a'']
     [ascii ''parent.user_id>1'', ascii ''x'', ascii ''b<1'']
     = Inl (ExceptionText (ascii ''Invalid filter: x''))"
proof -
  note t1 = check_dimensions_subset[of "[ascii ''parent.ds'']" word_sample
      "[ascii ''parent.user_id>1'', 233 # ascii ''t>=10'']" parent_dimensions metric_node,
      unfolded Let_def, THEN conjunct1]
  note t2 = check_dimensions_subset[of "[ascii ''parent.ds'', ascii ''zz.a'', ascii ''b.c'']"
      word_sample "[ascii ''parent.user_id>1'']" parent_dimensions metric_node,
      unfolded Let_def, THEN conjunct1]
  note t3 = check_dimensions_subset[of "[ascii ''zz.a'']" word_sample
      "[ascii ''parent.user_id>1'', ascii ''x'', ascii ''b<1'']" parent_dimensions metric_node,
      unfolded Let_def, THEN conjunct2, rule_format,
      of "[ascii ''parent.user_id>1'']" "ascii ''x''" "[ascii ''b<1'']"]
  have 1: "check_dimensions word_sample parent_dimensions metric_node [ascii ''parent.ds'']
     [ascii ''parent.user_id>1'', 233 # ascii ''t>=10'']
     = Inr {ascii ''parent.ds'', ascii ''parent.user_id'', 233 # ascii ''t''}"
    using t1 by (auto simp: sample_matches parent_dimensions_def)
  have m: "\<forall>f\<in>set [ascii ''parent.user_id>1'']. FILTER_RE_match word_sample f \<noteq> None"
    by (simp add: sample_matches)
  have r: "set [ascii ''parent.ds'', ascii ''zz.a'', ascii ''b.c''] \<union>
      (\<lambda>f. fst (the (FILTER_RE_match word_sample f))) ` set [ascii ''parent.user_id>1'']
      = {ascii ''parent.ds'', ascii ''zz.a'', ascii ''b.c'', ascii ''parent.user_id''}"
    by (auto simp: sample_matches)
  have v: "set (parent_dimensions metric_node)
      = {ascii ''parent.ds'', ascii ''parent.user_id'', 233 # ascii ''t''}"
    by (simp add: parent_dimensions_def)
  have n: "\<not> {ascii ''parent.ds'', ascii ''zz.a'', ascii ''b.c'', ascii ''parent.user_id''}
      \<subseteq> {ascii ''parent.ds'', ascii ''parent.user_id'', 233 # ascii ''t''}"
    by (simp add: ascii_def)
  have 2: "check_dimensions word_sample parent_dimensions metric_node
     [ascii ''parent.ds'', ascii ''zz.a'', ascii ''b.c''] [ascii ''parent.user_id>1'']
     = Inl (ExceptionText (ascii ''Invalid dimensions: b.c, zz.a''))"
    using t2[unfolded r v sample_difference sample_invalid, THEN mp, OF m, THEN conjunct2,
        THEN mp, OF n, THEN conjunct1]
    by (simp add: ascii_append)
  have 3: "check_dimensions word_sample parent_dimensions metric_node [ascii ''zz.a'']
     [ascii ''parent.user_id>1'', ascii ''x'', ascii ''b<1'']
     = Inl (ExceptionText (ascii ''Invalid filter: x''))"
    using t3 by (simp add: sample_matches ascii_append)
  from 1 2 3 show ?thesis by blast
qed

text \<open>
  C4 as the spec states it fails for a filter list with a filter that does not match:
  no group-by and no dimension of a filter is invalid, and the function neither goes on
  nor raises an invalid-dimension error; it raises \<^verbatim>\<open>Invalid filter\<close>.
\<close>

theorem check_dimensions_invalid_filter_counterexample:
  "check_dimensions word_sample no_dimensions metric_node [] [ascii ''x'']
     = Inl (ExceptionText (ascii ''Invalid filter: x''))"
  by (simp add: check_dimensions_def get_dimensions_from_filters_def sample_matches ascii_append)

section \<open>Properties of the replacement of metrics\<close>

text \<open>
  Once \<^verbatim>\<open>parents\<close> is not empty, a metric with other parents raises.
\<close>

lemma parents_mismatch_raises:
  assumes "session n = Some node" "expression node = Some e" "e \<noteq> []" "is_metric e"
    "st_parents st \<noteq> []" "set (st_parents st) \<noteq> set (parents node)"
  shows "projection_step session is_metric metric_select (UnnamedExpr (Identifier (Ident q (Some n)))) st =
     Inl (Exception ''All metrics should have the same parents'')"
  using assms by (simp add: projection_step_def replace_metric_def)

lemma other_metric_first_raises:
  "get_new_projection_and_from metric_session (\<lambda>e. True) metric_selects
     [UnnamedExpr (Identifier (plain ''other_metric'')),
      UnnamedExpr (Identifier (plain ''orphan_metric''))] [] =
   Inl (Exception ''All metrics should have the same parents'')"
  by (simp add: get_new_projection_and_from_def projection_step_def replace_metric_def
      metric_session_def metric_selects_def orphan_metric_def other_metric_def metric_node_def
      plain_def)

text \<open>
  C6 does not hold of the code. \<^verbatim>\<open>if not parents\<close> takes an empty \<^verbatim>\<open>parents\<close> for
  "no metric seen yet". A first metric without parents leaves the list empty, and the
  second metric, whose parents are not the same, is accepted: the call returns both
  replaced metrics. (In the other order the same two metrics raise
  \<^verbatim>\<open>All metrics should have the same parents\<close>.)
\<close>

theorem get_new_projection_and_from_orphan_first:
  "get_new_projection_and_from metric_session (\<lambda>e. True) metric_selects
     [UnnamedExpr (Identifier (plain ''orphan_metric'')),
      UnnamedExpr (Identifier (plain ''other_metric''))] [] =
   Inr ([ExprWithAlias count_star (Ident (Some (CHR 0x22)) (Some ''orphan_metric'')),
         ExprWithAlias count_star (Ident (Some (CHR 0x22)) (Some ''other_metric''))],
        [Table [plain ''a''] None, Table [plain ''b''] None],
        [Node ''b'' None []]) \<and>
   set (parents orphan_metric) \<noteq> set (parents other_metric)"
  by (simp add: get_new_projection_and_from_def projection_step_def replace_metric_def
      metric_session_def metric_selects_def orphan_metric_def other_metric_def metric_node_def plain_def)

section \<open>Properties of qualification\<close>

text \<open>
  The three loops of \<^verbatim>\<open>prepare_tree\<close> are taken one at a time: what each does to the
  tables, to the column references and to the selects that the search finds.
\<close>

lemma find_tables_rename:
  "find_tables (rename_tables p n) =
     map (\<lambda>t. Table (qualify_name p (table_name t)) (talias t)) (find_tables n)"
  "find_tables_list (rename_tables_list p cs) =
     map (\<lambda>t. Table (qualify_name p (table_name t)) (talias t)) (find_tables_list cs)"
  by (induction n and cs rule: find_tables_find_tables_list.induct) auto

lemma find_columns_rename:
  "find_columns (rename_tables p n) = find_columns n"
  "find_columns_list (rename_tables_list p cs) = find_columns_list cs"
  by (induction n and cs rule: find_tables_find_tables_list.induct) auto

lemma find_selects_rename:
  "find_selects (rename_tables p n) = map (rename_tables_list p) (find_selects n)"
  "find_selects_list (rename_tables_list p cs) = map (rename_tables_list p) (find_selects_list cs)"
  by (induction n and cs rule: find_tables_find_tables_list.induct) auto

lemma find_tables_strip:
  "find_tables (strip_table_aliases n) = map (\<lambda>t. Table (table_name t) None) (find_tables n)"
  "find_tables_list (strip_table_aliases_list cs) =
     map (\<lambda>t. Table (table_name t) None) (find_tables_list cs)"
  by (induction n and cs rule: find_tables_find_tables_list.induct) auto

lemma find_columns_strip:
  "find_columns (strip_table_aliases n) = find_columns n"
  "find_columns_list (strip_table_aliases_list cs) = find_columns_list cs"
  by (induction n and cs rule: find_tables_find_tables_list.induct) auto

lemma find_tables_remove_aliases:
  "find_tables (remove_aliases n) = find_tables n"
  "find_tables_list (remove_aliases_list cs) = find_tables_list cs"
  by (induction n and cs rule: find_tables_find_tables_list.induct) auto

lemma find_columns_remove_aliases:
  "find_columns (remove_aliases n) = find_columns n"
  "find_columns_list (remove_aliases_list cs) = find_columns_list cs"
  by (induction n and cs rule: find_tables_find_tables_list.induct) auto

lemma same_content_refl: "list_all2 same_content xs xs"
  by (simp add: list_all2_refl same_content_def)

lemma same_content_remove_aliases: "same_content cs (remove_aliases_list cs)"
  by (simp add: same_content_def find_columns_remove_aliases find_tables_remove_aliases)

lemma find_selects_remove_aliases:
  "list_all2 same_content (find_selects n) (find_selects (remove_aliases n))"
  "list_all2 same_content (find_selects_list cs) (find_selects_list (remove_aliases_list cs))"
  by (induction n and cs rule: find_tables_find_tables_list.induct)
     (auto simp: same_content_refl same_content_remove_aliases intro: list_all2_appendI)

lemma find_tables_are_tables:
  "t \<in> set (find_tables n) \<Longrightarrow> \<exists>nm a. t = Table nm a"
  "t \<in> set (find_tables_list cs) \<Longrightarrow> \<exists>nm a. t = Table nm a"
  by (induction n and cs rule: find_tables_find_tables_list.induct) auto

lemma qualify_table_scope:
  "qualify_table p e n sc = Inr (n', sc') \<Longrightarrow>
     n' = qualify_name p n \<and> sc' = scope_step e sc n' \<and> get_column_names e n' \<noteq> Inl err"
  by (auto simp: qualify_table_def scope_step_def Let_def split: sum.splits)

lemma qualify_tables_rename:
  "qualify_tables p e n sc = Inr (n', sc') \<Longrightarrow>
     n' = rename_tables p n \<and>
     sc' = foldl (scope_step e) sc (map table_name (find_tables n'))"
  "qualify_tables_list p e cs sc = Inr (cs', sc') \<Longrightarrow>
     cs' = rename_tables_list p cs \<and>
     sc' = foldl (scope_step e) sc (map table_name (find_tables_list cs'))"
proof (induction p e n sc and p e cs sc arbitrary: n' sc' and cs' sc'
    rule: qualify_tables_qualify_tables_list.induct)
  case (1 prefix engine n a sc)
  then show ?case
    by (auto simp: qualify_table_def scope_step_def Let_def split: sum.splits)
next
  case (9 prefix engine c cs sc)
  then show ?case by (fastforce split: sum.splits prod.splits)
qed (auto split: sum.splits prod.splits)

lemma unalias_tables_strip:
  "unalias_tables n al = (strip_table_aliases n, foldl alias_step al (find_tables n))"
  "unalias_tables_list cs al = (strip_table_aliases_list cs, foldl alias_step al (find_tables_list cs))"
  by (induction n al and cs al rule: unalias_tables_unalias_tables_list.induct)
     (auto simp: alias_step_def split: option.splits)

lemma qualify_compounds_columns:
  "qualify_compounds p al n = Inr n' \<Longrightarrow>
     find_tables n' = find_tables n \<and>
     list_all2 (rel_compound p al) (find_columns n) (find_columns n')"
  "qualify_compounds_list p al cs = Inr cs' \<Longrightarrow>
     find_tables_list cs' = find_tables_list cs \<and>
     list_all2 (rel_compound p al) (find_columns_list cs) (find_columns_list cs')"
proof (induction p al n and p al cs arbitrary: n' and cs'
    rule: qualify_compounds_qualify_compounds_list.induct)
  case (9 prefix al c cs)
  then show ?case by (fastforce split: sum.splits intro: list_all2_appendI)
qed (auto simp: rel_compound_def split: sum.splits)

lemma qualify_identifiers_columns:
  "qualify_identifiers sc n = Inr n' \<Longrightarrow>
     find_tables n' = find_tables n \<and>
     list_all2 (rel_identifier sc) (find_columns n) (find_columns n')"
  "qualify_identifiers_list sc cs = Inr cs' \<Longrightarrow>
     find_tables_list cs' = find_tables_list cs \<and>
     list_all2 (rel_identifier sc) (find_columns_list cs) (find_columns_list cs')"
proof (induction sc n and sc cs arbitrary: n' and cs'
    rule: qualify_identifiers_qualify_identifiers_list.induct)
  case (9 sc c cs)
  then show ?case by (fastforce split: sum.splits intro: list_all2_appendI)
qed (auto simp: rel_identifier_def split: sum.splits)

lemma find_columns_shape:
  "x \<in> set (find_columns n) \<Longrightarrow> (\<exists>i. x = Identifier i) \<or> (\<exists>c. x = CompoundIdentifier c)"
  "x \<in> set (find_columns_list cs) \<Longrightarrow> (\<exists>i. x = Identifier i) \<or> (\<exists>c. x = CompoundIdentifier c)"
  by (induction n and cs rule: find_columns_find_columns_list.induct) auto

lemma rel_compose:
  assumes "list_all2 (rel_compound p al) xs ys" "list_all2 (rel_identifier sc) ys zs"
  shows "list_all2 (rewritten p al sc) xs zs"
proof -
  have "list_all2 (rel_compound p al OO rel_identifier sc) xs zs"
    using assms by (auto simp: list.rel_compp)
  moreover have "rewritten p al sc x z" if "rel_compound p al x y" "rel_identifier sc y z" for x y z
    using that by (cases x) (auto simp: rel_compound_def rel_identifier_def rewritten_def)
  ultimately show ?thesis
    by (auto elim!: list_all2_mono)
qed

lemma prepare_select_result:
  assumes "prepare_select p sc cs = Inr cs'"
  shows "find_tables_list cs' = map (\<lambda>t. Table (table_name t) None) (find_tables_list cs)"
    and "list_all2 (rewritten p (foldl alias_step [] (find_tables_list cs)) sc)
           (find_columns_list cs) (find_columns_list cs')"
proof -
  let ?al = "foldl alias_step [] (find_tables_list cs)"
  from assms obtain cs2 where
    b: "qualify_compounds_list p ?al (strip_table_aliases_list cs) = Inr cs2"
    and c: "qualify_identifiers_list sc cs2 = Inr cs'"
    by (auto simp: prepare_select_def unalias_tables_strip split: sum.splits)
  from qualify_compounds_columns(2)[OF b] qualify_identifiers_columns(2)[OF c]
  show "find_tables_list cs' = map (\<lambda>t. Table (table_name t) None) (find_tables_list cs)"
    by (simp add: find_tables_strip)
  from qualify_compounds_columns(2)[OF b] qualify_identifiers_columns(2)[OF c]
  show "list_all2 (rewritten p ?al sc) (find_columns_list cs) (find_columns_list cs')"
    by (auto simp: find_columns_strip intro: rel_compose)
qed

lemma prepare_selects_result:
  "prepare_selects p sc n = Inr n' \<Longrightarrow>
     map table_name (find_tables n') = map table_name (find_tables n) \<and>
     list_all2 (\<lambda>cs cs'. prepare_select p sc cs = Inr cs') (find_selects n) (find_selects n')"
  "prepare_selects_list p sc cs = Inr cs' \<Longrightarrow>
     map table_name (find_tables_list cs') = map table_name (find_tables_list cs) \<and>
     list_all2 (\<lambda>cs cs'. prepare_select p sc cs = Inr cs') (find_selects_list cs) (find_selects_list cs')"
proof (induction p sc n and p sc cs arbitrary: n' and cs'
    rule: prepare_selects_prepare_selects_list.induct)
  case (6 prefix sc cs)
  then obtain cs2 where r: "prepare_select prefix sc cs = Inr cs2" and n: "n' = Select cs2"
    by (auto split: sum.splits)
  from prepare_select_result(1)[OF r] have "map table_name (find_tables_list cs2) =
    map table_name (find_tables_list cs)" by (simp add: comp_def)
  with r n show ?case by simp
next
  case (9 prefix sc c cs)
  then show ?case by (fastforce split: sum.splits intro: list_all2_appendI)
qed (auto split: sum.splits)

lemma prepare_tree_phases:
  assumes "prepare_tree tree e db cat sch = Inr tree'"
  shows "\<exists>sc t2. qualify_tables_list (make_prefix db cat sch) e tree empty_scope =
             Inr (rename_tables_list (make_prefix db cat sch) tree, sc) \<and>
           prepare_selects_list (make_prefix db cat sch) sc
             (rename_tables_list (make_prefix db cat sch) tree) = Inr t2 \<and>
           tree' = remove_aliases_list t2"
proof -
  from assms obtain t1 sc t2 where
    1: "qualify_tables_list (make_prefix db cat sch) e tree empty_scope = Inr (t1, sc)"
    and 2: "prepare_selects_list (make_prefix db cat sch) sc t1 = Inr t2"
    and 3: "tree' = remove_aliases_list t2"
    by (auto simp: prepare_tree_def Let_def split: sum.splits)
  from qualify_tables_rename(2)[OF 1] have "t1 = rename_tables_list (make_prefix db cat sch) tree"
    by simp
  with 1 2 3 show ?thesis by blast
qed

lemma prepare_tree_table_names:
  assumes "prepare_tree tree e db cat sch = Inr tree'"
  shows "map table_name (find_tables_list tree') =
         map (\<lambda>t. qualify_name (make_prefix db cat sch) (table_name t)) (find_tables_list tree)"
proof -
  from prepare_tree_phases[OF assms] obtain sc t2 where
    2: "prepare_selects_list (make_prefix db cat sch) sc
             (rename_tables_list (make_prefix db cat sch) tree) = Inr t2"
    and 3: "tree' = remove_aliases_list t2" by blast
  from prepare_selects_result(2)[OF 2] 3 show ?thesis
    by (simp add: find_tables_remove_aliases find_tables_rename comp_def)
qed

lemma prepare_tree_selects:
  assumes "prepare_tree tree e db cat sch = Inr tree'"
    and "qualify_tables_list (make_prefix db cat sch) e tree empty_scope = Inr (t1, sc)"
  shows "list_all2
           (\<lambda>cs cs'. (\<forall>t\<in>set (find_tables_list cs'). talias t = None) \<and>
              list_all2 (rewritten (make_prefix db cat sch)
                           (select_aliases (make_prefix db cat sch) cs) sc)
                (find_columns_list cs) (find_columns_list cs'))
           (find_selects_list tree) (find_selects_list tree')"
proof -
  let ?p = "make_prefix db cat sch"
  from prepare_tree_phases[OF assms(1)] assms(2) obtain t2 where
    2: "prepare_selects_list ?p sc (rename_tables_list ?p tree) = Inr t2"
    and 3: "tree' = remove_aliases_list t2" by auto
  have a: "list_all2 (\<lambda>cs cs2. prepare_select ?p sc (rename_tables_list ?p cs) = Inr cs2)
             (find_selects_list tree) (find_selects_list t2)"
    using prepare_selects_result(2)[OF 2] by (simp add: find_selects_rename list_all2_map1)
  have b: "list_all2 same_content (find_selects_list t2) (find_selects_list tree')"
    unfolding 3 by (rule find_selects_remove_aliases)
  from a b have "list_all2
     ((\<lambda>cs cs2. prepare_select ?p sc (rename_tables_list ?p cs) = Inr cs2) OO same_content)
     (find_selects_list tree) (find_selects_list tree')"
    by (auto simp: list.rel_compp)
  moreover have "(\<forall>t\<in>set (find_tables_list cs'). talias t = None) \<and>
              list_all2 (rewritten ?p (select_aliases ?p cs) sc)
                (find_columns_list cs) (find_columns_list cs')"
    if r: "prepare_select ?p sc (rename_tables_list ?p cs) = Inr cs2" and s: "same_content cs2 cs'"
    for cs cs2 cs'
    using prepare_select_result[OF r] s
    by (auto simp: same_content_def select_aliases_def find_columns_rename)
  ultimately show ?thesis
    by (auto elim!: list_all2_mono)
qed

lemma dict_get_dict_set:
  "dict_get (dict_set k v d) k' = (if k' = k then Some v else dict_get d k')"
  by (induction d) (auto simp: dict_get_def)

lemma keys_dict_set:
  "map fst (dict_set k v d) = (if k \<in> set (map fst d) then map fst d else map fst d @ [k])"
proof (induction d)
  case Nil
  then show ?case by simp
next
  case (Cons kv d)
  obtain k' v' where kv: "kv = (k', v')" by (cases kv)
  show ?case
  proof (cases "k' = k")
    case True
    with kv show ?thesis by simp
  next
    case False
    with kv Cons.IH show ?thesis by (simp del: set_map)
  qed
qed

lemma key_set_dict_set: "fst ` set (dict_set k v d) = insert k (fst ` set d)"
proof -
  have "set (map fst (dict_set k v d)) = insert k (set (map fst d))"
    unfolding keys_dict_set by auto
  then show ?thesis by simp
qed

lemma distinct_dict_set: "distinct (map fst d) \<Longrightarrow> distinct (map fst (dict_set k v d))"
  by (simp add: keys_dict_set)

lemma dict_get_aliases:
  "dict_get (foldl alias_step al ts) a =
     (case filter (\<lambda>t. map_option (\<lambda>ta. val (alias_name ta)) (talias t) = Some a) ts of
        [] \<Rightarrow> dict_get al a
      | t # rest \<Rightarrow> Some (table_name (last (t # rest))))"
proof (induction ts rule: rev_induct)
  case Nil
  then show ?case by simp
next
  case (snoc t ts)
  show ?case
  proof (cases "talias t")
    case None
    with snoc show ?thesis by (simp add: alias_step_def)
  next
    case (Some ta)
    with snoc show ?thesis
      by (auto simp: alias_step_def dict_get_dict_set split: list.splits)
  qed
qed

lemma dict_get_select_aliases:
  "dict_get (select_aliases p cs) a =
     (case filter (\<lambda>t. map_option (\<lambda>ta. val (alias_name ta)) (talias t) = Some a)
             (find_tables_list cs) of
        [] \<Rightarrow> None
      | t # rest \<Rightarrow> Some (qualify_name p (table_name (last (t # rest)))))"
proof -
  let ?f = "\<lambda>t. Table (qualify_name p (table_name t)) (talias t)"
  let ?P = "\<lambda>t. map_option (\<lambda>ta. val (alias_name ta)) (talias t) = Some a"
  have f: "filter ?P (map ?f (find_tables_list cs)) = map ?f (filter ?P (find_tables_list cs))"
    by (simp add: filter_map comp_def)
  show ?thesis
    unfolding select_aliases_def dict_get_aliases find_tables_rename f
    by (cases "filter ?P (find_tables_list cs)") (auto simp: dict_get_def last_map)
qed

lemma qualify_tables_columns_known:
  "qualify_tables p e n sc = Inr (n', sc') \<Longrightarrow>
     \<forall>t\<in>set (find_tables n'). \<exists>cols. get_column_names e (table_name t) = Inr cols"
  "qualify_tables_list p e cs sc = Inr (cs', sc') \<Longrightarrow>
     \<forall>t\<in>set (find_tables_list cs'). \<exists>cols. get_column_names e (table_name t) = Inr cols"
proof (induction p e n sc and p e cs sc arbitrary: n' sc' and cs' sc'
    rule: qualify_tables_qualify_tables_list.induct)
  case (1 prefix engine n a sc)
  then show ?case
    by (auto simp: qualify_table_def Let_def split: sum.splits)
next
  case (9 prefix engine c cs sc)
  then show ?case by (fastforce split: sum.splits prod.splits)
qed (auto split: sum.splits prod.splits)

lemma scope_ok_empty: "scope_ok e [] empty_scope"
  by (simp add: scope_ok_def empty_scope_def dict_get_def)

lemma scope_ok_step:
  assumes "scope_ok e names sc" "get_column_names e n = Inr cols"
  shows "scope_ok e (names @ [n]) (scope_step e sc n)"
proof -
  let ?k = "table_key n"
  have st: "scope_step e sc n =
      \<lparr>columns = dict_set ?k cols (columns sc), tables = dict_set ?k n (tables sc)\<rparr>"
    using assms(2) by (simp add: scope_step_def)
  from assms(1) have k: "map fst (columns sc) = map fst (tables sc)"
    and d: "distinct (map fst (columns sc))"
    and ks: "fst ` set (columns sc) = table_key ` set names"
    and t: "\<forall>k n. dict_get (tables sc) k = Some n \<longrightarrow> table_key n = k \<and> n \<in> set names"
    and c: "\<forall>k cols. dict_get (columns sc) k = Some cols \<longrightarrow>
        (\<exists>n\<in>set names. table_key n = k \<and> get_column_names e n = Inr cols)"
    unfolding scope_ok_def by auto
  have 1: "map fst (dict_set ?k cols (columns sc)) = map fst (dict_set ?k n (tables sc))"
    unfolding keys_dict_set k by simp
  have 2: "distinct (map fst (dict_set ?k cols (columns sc)))"
    using d by (rule distinct_dict_set)
  have 3: "fst ` set (dict_set ?k cols (columns sc)) = table_key ` set (names @ [n])"
    unfolding key_set_dict_set ks by auto
  have 4: "\<forall>k' n'. dict_get (dict_set ?k n (tables sc)) k' = Some n' \<longrightarrow>
      table_key n' = k' \<and> n' \<in> set (names @ [n])"
    using t by (auto simp: dict_get_dict_set split: if_splits)
  have 5: "\<forall>k' cols'. dict_get (dict_set ?k cols (columns sc)) k' = Some cols' \<longrightarrow>
        (\<exists>n'\<in>set (names @ [n]). table_key n' = k' \<and> get_column_names e n' = Inr cols')"
  proof (intro allI impI)
    fix k' cols'
    assume a: "dict_get (dict_set ?k cols (columns sc)) k' = Some cols'"
    show "\<exists>n'\<in>set (names @ [n]). table_key n' = k' \<and> get_column_names e n' = Inr cols'"
    proof (cases "k' = ?k")
      case True
      with a assms(2) show ?thesis by (auto simp: dict_get_dict_set)
    next
      case False
      with a have "dict_get (columns sc) k' = Some cols'" by (simp add: dict_get_dict_set)
      with c show ?thesis by auto
    qed
  qed
  from 1 2 3 4 5 show ?thesis unfolding scope_ok_def st by simp
qed

lemma scope_ok_foldl:
  assumes "scope_ok e names0 sc" "\<forall>n\<in>set names. \<exists>cols. get_column_names e n = Inr cols"
  shows "scope_ok e (names0 @ names) (foldl (scope_step e) sc names)"
  using assms
proof (induction names arbitrary: names0 sc)
  case Nil
  then show ?case by simp
next
  case (Cons n names)
  from Cons.prems obtain cols where "get_column_names e n = Inr cols" by auto
  from scope_ok_step[OF Cons.prems(1) this] Cons.prems(2)
  have "scope_ok e ((names0 @ [n]) @ names) (foldl (scope_step e) (scope_step e sc n) names)"
    by (intro Cons.IH) auto
  then show ?case by simp
qed

lemma phase1_scope_ok:
  assumes "qualify_tables_list p e tree empty_scope = Inr (t1, sc)"
  shows "scope_ok e (map (\<lambda>t. qualify_name p (table_name t)) (find_tables_list tree)) sc"
proof -
  from qualify_tables_rename(2)[OF assms] have t1: "t1 = rename_tables_list p tree"
    and sc: "sc = foldl (scope_step e) empty_scope (map table_name (find_tables_list t1))" by auto
  have names: "map table_name (find_tables_list t1) =
      map (\<lambda>t. qualify_name p (table_name t)) (find_tables_list tree)"
    unfolding t1 by (simp add: find_tables_rename comp_def)
  from qualify_tables_columns_known(2)[OF assms]
  have "\<forall>n\<in>set (map table_name (find_tables_list t1)). \<exists>cols. get_column_names e n = Inr cols"
    by auto
  from scope_ok_foldl[OF scope_ok_empty this] sc names show ?thesis by simp
qed

lemma candidates_keys: "set (candidates sc i) \<subseteq> fst ` set (columns sc)"
  by (auto simp: candidates_def)

lemma candidates_iff:
  assumes "distinct (map fst (columns sc))"
  shows "key \<in> set (candidates sc i) \<longleftrightarrow>
           (\<exists>cols. dict_get (columns sc) key = Some cols \<and> occurs_in (val i) cols)"
  using assms by (force simp: candidates_def dict_get_def)

lemma distinct_candidates: "distinct (map fst (columns sc)) \<Longrightarrow> distinct (candidates sc i)"
  unfolding candidates_def by (simp add: distinct_map_filter)

lemma qualify_identifier_Inr:
  "qualify_identifier sc i = Inr c' \<Longrightarrow>
     \<exists>key n. candidates sc i = [key] \<and> dict_get (tables sc) key = Some n \<and> c' = n @ [i]"
  by (cases "candidates sc i"; cases "tl (candidates sc i)")
     (auto simp: qualify_identifier_def Let_def split: if_splits option.splits)

lemma qualify_identifier_Inl:
  assumes "map fst (columns sc) = map fst (tables sc)" "qualify_identifier sc i = Inl e"
  shows "(e = ColumnNotFound i \<and> candidates sc i = []) \<or>
         (e = ColumnAmbiguous i \<and> 1 < length (candidates sc i))"
proof -
  have "dict_get (tables sc) (hd (candidates sc i)) \<noteq> None" if "candidates sc i \<noteq> []"
  proof -
    from that have "hd (candidates sc i) \<in> set (candidates sc i)" by simp
    with candidates_keys have "hd (candidates sc i) \<in> fst ` set (columns sc)" by blast
    then have "hd (candidates sc i) \<in> set (map fst (tables sc))"
      using assms(1) by (metis list.set_map)
    then show ?thesis by (auto simp: dict_get_def map_of_eq_None_iff)
  qed
  with assms(2) show ?thesis
    by (auto simp: qualify_identifier_def Let_def split: if_splits option.splits)
qed

lemma qualify_compounds_Inl:
  "qualify_compounds p al n = Inl e \<Longrightarrow>
     e = ValueError \<and> (\<exists>c. CompoundIdentifier c \<in> set (find_columns n) \<and> length c < 2)"
  "qualify_compounds_list p al cs = Inl e \<Longrightarrow>
     e = ValueError \<and> (\<exists>c. CompoundIdentifier c \<in> set (find_columns_list cs) \<and> length c < 2)"
proof (induction p al n and p al cs rule: qualify_compounds_qualify_compounds_list.induct)
  case (3 prefix al c)
  then show ?case
    by (auto simp: qualify_compound_def Let_def split: sum.splits if_splits option.splits)
next
  case (9 prefix al c cs)
  then show ?case by (fastforce split: sum.splits)
qed (auto split: sum.splits)

lemma qualify_identifiers_Inl:
  "qualify_identifiers sc n = Inl e \<Longrightarrow>
     \<exists>i. Identifier i \<in> set (find_columns n) \<and> qualify_identifier sc i = Inl e"
  "qualify_identifiers_list sc cs = Inl e \<Longrightarrow>
     \<exists>i. Identifier i \<in> set (find_columns_list cs) \<and> qualify_identifier sc i = Inl e"
proof (induction sc n and sc cs rule: qualify_identifiers_qualify_identifiers_list.induct)
  case (9 sc c cs)
  then show ?case by (fastforce split: sum.splits)
qed (auto split: sum.splits)

lemma rel_compound_Identifier:
  "list_all2 (rel_compound p al) xs ys \<Longrightarrow> Identifier i \<in> set ys \<Longrightarrow> Identifier i \<in> set xs"
  by (induction rule: list_all2_induct) (auto simp: rel_compound_def split: node.splits)

lemma prepare_select_Inl:
  assumes "prepare_select p sc cs = Inl e"
  shows "(e = ValueError \<and> (\<exists>c. CompoundIdentifier c \<in> set (find_columns_list cs) \<and> length c < 2)) \<or>
         (\<exists>i. Identifier i \<in> set (find_columns_list cs) \<and> qualify_identifier sc i = Inl e)"
proof -
  let ?al = "foldl alias_step [] (find_tables_list cs)"
  show ?thesis
  proof (cases "qualify_compounds_list p ?al (strip_table_aliases_list cs)")
    case (Inl e')
    with assms have "e' = e" by (simp add: prepare_select_def unalias_tables_strip)
    with qualify_compounds_Inl(2)[OF Inl] show ?thesis by (simp add: find_columns_strip)
  next
    case (Inr cs2)
    with assms have "qualify_identifiers_list sc cs2 = Inl e"
      by (simp add: prepare_select_def unalias_tables_strip)
    from qualify_identifiers_Inl(2)[OF this] obtain i where
      i: "Identifier i \<in> set (find_columns_list cs2)" and e: "qualify_identifier sc i = Inl e"
      by blast
    from qualify_compounds_columns(2)[OF Inr] rel_compound_Identifier[OF _ i]
    have "Identifier i \<in> set (find_columns_list cs)" by (auto simp: find_columns_strip)
    with e show ?thesis by blast
  qed
qed

lemma prepare_selects_Inl:
  "prepare_selects p sc n = Inl e \<Longrightarrow> \<exists>cs\<in>set (find_selects n). prepare_select p sc cs = Inl e"
  "prepare_selects_list p sc cs = Inl e \<Longrightarrow>
     \<exists>cs\<in>set (find_selects_list cs). prepare_select p sc cs = Inl e"
proof (induction p sc n and p sc cs rule: prepare_selects_prepare_selects_list.induct)
  case (9 prefix sc c cs)
  then show ?case by (fastforce split: sum.splits)
qed (auto split: sum.splits)

lemma prepare_tree_Inl:
  assumes "qualify_tables_list (make_prefix db cat sch) e tree empty_scope = Inr (t1, sc)"
    and "prepare_tree tree e db cat sch = Inl err"
  shows "\<exists>cs\<in>set (find_selects_list tree).
           (err = ValueError \<and> (\<exists>c. CompoundIdentifier c \<in> set (find_columns_list cs) \<and> length c < 2)) \<or>
           (\<exists>i. Identifier i \<in> set (find_columns_list cs) \<and> qualify_identifier sc i = Inl err)"
proof -
  let ?p = "make_prefix db cat sch"
  from qualify_tables_rename(2)[OF assms(1)] have t1: "t1 = rename_tables_list ?p tree" by simp
  from assms have "prepare_selects_list ?p sc t1 = Inl err"
    by (auto simp: prepare_tree_def Let_def split: sum.splits)
  from prepare_selects_Inl(2)[OF this] obtain cs where
    cs: "cs \<in> set (find_selects_list tree)"
    and e: "prepare_select ?p sc (rename_tables_list ?p cs) = Inl err"
    unfolding t1 by (auto simp: find_selects_rename)
  from prepare_select_Inl[OF e] cs show ?thesis
    by (auto simp: find_columns_rename)
qed

lemma qualify_name_short:
  "1 \<le> length n \<Longrightarrow> length n \<le> 4 \<Longrightarrow> length prefix = 3 \<Longrightarrow>
   qualify_name prefix n = take (4 - length n) prefix @ n \<and> length (qualify_name prefix n) = 4"
  by (auto simp: qualify_name_def slice_to_def nat_diff_distrib')

lemma length_make_prefix: "length (make_prefix db cat sch) = 3"
  by (simp add: make_prefix_def)

lemma qualify_compound_alias:
  "2 \<le> length c \<Longrightarrow> dict_get al (val (c ! (length c - 2))) = Some n \<Longrightarrow>
   qualify_compound prefix al c = Inr (n @ [last c])"
  by (simp add: qualify_compound_def Let_def)

lemma rewritten_compound:
  "rewritten p al sc old new \<Longrightarrow> old = CompoundIdentifier c \<Longrightarrow>
     \<exists>c'. qualify_compound p al c = Inr c' \<and> new = CompoundIdentifier c'"
  by (simp add: rewritten_def)

lemma rewritten_identifier:
  "rewritten p al sc old new \<Longrightarrow> old = Identifier i \<Longrightarrow>
     \<exists>key n. candidates sc i = [key] \<and> dict_get (tables sc) key = Some n \<and>
       new = CompoundIdentifier (n @ [i])"
  by (auto simp: rewritten_def dest: qualify_identifier_Inr)

text \<open>
  C8, as the code has it. When \<^verbatim>\<open>prepare_tree\<close> returns, the name of every table
  reference is \<^verbatim>\<open>prefix[: 4 - len(name)] + name\<close> of its original name; for a name of one
  to four parts that is the name padded on the left with the first parts of
  \<^verbatim>\<open>(database, catalog, schema)\<close> to four parts. Every table reference inside a select
  has lost its alias. Every compound identifier of a select is rewritten by
  \<^verbatim>\<open>qualify_compound\<close> with the aliases of that select: when its last part but one is an
  alias, the result is the qualified name of the table with that alias (the last one of
  the select, should several have it) followed by the last part of the identifier.
\<close>

theorem prepare_tree_qualifies_tables:
  assumes "prepare_tree tree engine database catalog schema = Inr tree'"
  shows "let prefix = make_prefix database catalog schema in
     map table_name (find_tables_list tree') =
       map (\<lambda>t. qualify_name prefix (table_name t)) (find_tables_list tree) \<and>
     (\<forall>n. 1 \<le> length n \<and> length n \<le> 4 \<longrightarrow>
        qualify_name prefix n = take (4 - length n) prefix @ n \<and>
        length (qualify_name prefix n) = 4) \<and>
     list_all2
       (\<lambda>cs cs'. (\<forall>t\<in>set (find_tables_list cs'). talias t = None) \<and>
          list_all2
            (\<lambda>old new. \<forall>c. old = CompoundIdentifier c \<longrightarrow>
               (\<exists>c'. qualify_compound prefix (select_aliases prefix cs) c = Inr c' \<and>
                     new = CompoundIdentifier c'))
            (find_columns_list cs) (find_columns_list cs'))
       (find_selects_list tree) (find_selects_list tree') \<and>
     (\<forall>al c n. 2 \<le> length c \<and> dict_get al (val (c ! (length c - 2))) = Some n \<longrightarrow>
        qualify_compound prefix al c = Inr (n @ [last c])) \<and>
     (\<forall>cs a. dict_get (select_aliases prefix cs) a =
        (case filter (\<lambda>t. map_option (\<lambda>ta. val (alias_name ta)) (talias t) = Some a)
                (find_tables_list cs) of
           [] \<Rightarrow> None
         | t # rest \<Rightarrow> Some (qualify_name prefix (table_name (last (t # rest))))))"
proof -
  let ?p = "make_prefix database catalog schema"
  from prepare_tree_phases[OF assms] obtain sc where
    1: "qualify_tables_list ?p engine tree empty_scope = Inr (rename_tables_list ?p tree, sc)"
    by blast
  have a: "map table_name (find_tables_list tree') =
       map (\<lambda>t. qualify_name ?p (table_name t)) (find_tables_list tree)"
    using assms by (rule prepare_tree_table_names)
  have b: "\<forall>n. 1 \<le> length n \<and> length n \<le> 4 \<longrightarrow>
        qualify_name ?p n = take (4 - length n) ?p @ n \<and> length (qualify_name ?p n) = 4"
    using qualify_name_short[OF _ _ length_make_prefix] by blast
  have c: "list_all2
       (\<lambda>cs cs'. (\<forall>t\<in>set (find_tables_list cs'). talias t = None) \<and>
          list_all2
            (\<lambda>old new. \<forall>c. old = CompoundIdentifier c \<longrightarrow>
               (\<exists>c'. qualify_compound ?p (select_aliases ?p cs) c = Inr c' \<and>
                     new = CompoundIdentifier c'))
            (find_columns_list cs) (find_columns_list cs'))
       (find_selects_list tree) (find_selects_list tree')"
    using prepare_tree_selects[OF assms 1]
    by (rule list_all2_mono) (auto elim!: list_all2_mono dest: rewritten_compound)
  have d: "\<forall>al c n. 2 \<le> length c \<and> dict_get al (val (c ! (length c - 2))) = Some n \<longrightarrow>
        qualify_compound ?p al c = Inr (n @ [last c])"
    using qualify_compound_alias by blast
  have e: "\<forall>cs a. dict_get (select_aliases ?p cs) a =
        (case filter (\<lambda>t. map_option (\<lambda>ta. val (alias_name ta)) (talias t) = Some a)
                (find_tables_list cs) of
           [] \<Rightarrow> None
         | t # rest \<Rightarrow> Some (qualify_name ?p (table_name (last (t # rest)))))"
    using dict_get_select_aliases by blast
  from a b c d e show ?thesis unfolding Let_def by blast
qed

text \<open>
  C7, as the code has it. Let the first loop of \<^verbatim>\<open>prepare_tree\<close> succeed and leave the
  two dicts \<open>sc\<close>. The candidates of a bare identifier are the keys of the tables whose
  stored column list contains its value, each key once; the keys are those of the
  qualified names of the tables of the whole tree, whichever statement or select a table
  stands in. If \<^verbatim>\<open>prepare_tree\<close> returns, every bare identifier inside a
  select had exactly one candidate and has become the compound identifier of that table's
  qualified name followed by the identifier itself. If it raises, then either a compound
  identifier of fewer than two parts could not be unpacked, or the error is
  \<^verbatim>\<open>Column ... not found in any table\<close> for a bare identifier of a select without a
  candidate, or \<^verbatim>\<open>Column ... present is ambiguous\<close> for one with more than one. A bare
  identifier of a select without exactly one candidate always makes it raise.
\<close>

theorem prepare_tree_bare_identifiers:
  assumes "qualify_tables_list (make_prefix database catalog schema) engine tree empty_scope =
             Inr (tree1, sc)"
  shows "let prefix = make_prefix database catalog schema in
     (\<forall>tree'. prepare_tree tree engine database catalog schema = Inr tree' \<longrightarrow>
        list_all2
          (\<lambda>cs cs'. list_all2
             (\<lambda>old new. \<forall>i. old = Identifier i \<longrightarrow>
                (\<exists>key n. candidates sc i = [key] \<and> dict_get (tables sc) key = Some n \<and>
                   new = CompoundIdentifier (n @ [i])))
             (find_columns_list cs) (find_columns_list cs'))
          (find_selects_list tree) (find_selects_list tree')) \<and>
     (\<forall>err. prepare_tree tree engine database catalog schema = Inl err \<longrightarrow>
        (\<exists>cs\<in>set (find_selects_list tree).
           (err = ValueError \<and>
              (\<exists>c. CompoundIdentifier c \<in> set (find_columns_list cs) \<and> length c < 2)) \<or>
           (\<exists>i. Identifier i \<in> set (find_columns_list cs) \<and>
              ((err = ColumnNotFound i \<and> candidates sc i = []) \<or>
               (err = ColumnAmbiguous i \<and> 1 < length (candidates sc i)))))) \<and>
     ((\<exists>cs\<in>set (find_selects_list tree). \<exists>i. Identifier i \<in> set (find_columns_list cs) \<and>
          length (candidates sc i) \<noteq> 1) \<longrightarrow>
        (\<exists>err. prepare_tree tree engine database catalog schema = Inl err)) \<and>
     (\<forall>i key. key \<in> set (candidates sc i) \<longleftrightarrow>
        (\<exists>cols. dict_get (columns sc) key = Some cols \<and> occurs_in (val i) cols)) \<and>
     (\<forall>i. distinct (candidates sc i)) \<and>
     fst ` set (columns sc) =
       (\<lambda>t. table_key (qualify_name prefix (table_name t))) ` set (find_tables_list tree) \<and>
     (\<forall>key cols. dict_get (columns sc) key = Some cols \<longrightarrow>
        (\<exists>t\<in>set (find_tables_list tree).
           table_key (qualify_name prefix (table_name t)) = key \<and>
           get_column_names engine (qualify_name prefix (table_name t)) = Inr cols)) \<and>
     (\<forall>key n. dict_get (tables sc) key = Some n \<longrightarrow>
        table_key n = key \<and>
        (\<exists>t\<in>set (find_tables_list tree). n = qualify_name prefix (table_name t)))"
proof -
  let ?p = "make_prefix database catalog schema"
  let ?names = "map (\<lambda>t. qualify_name ?p (table_name t)) (find_tables_list tree)"
  from phase1_scope_ok[OF assms] have ok: "scope_ok engine ?names sc" .
  then have keys: "map fst (columns sc) = map fst (tables sc)"
    and dist: "distinct (map fst (columns sc))"
    and ks: "fst ` set (columns sc) = table_key ` set ?names"
    and tb: "\<forall>k n. dict_get (tables sc) k = Some n \<longrightarrow> table_key n = k \<and> n \<in> set ?names"
    and cl: "\<forall>k cols. dict_get (columns sc) k = Some cols \<longrightarrow>
        (\<exists>n\<in>set ?names. table_key n = k \<and> get_column_names engine n = Inr cols)"
    unfolding scope_ok_def by blast+
  have a: "\<forall>tree'. prepare_tree tree engine database catalog schema = Inr tree' \<longrightarrow>
        list_all2
          (\<lambda>cs cs'. list_all2
             (\<lambda>old new. \<forall>i. old = Identifier i \<longrightarrow>
                (\<exists>key n. candidates sc i = [key] \<and> dict_get (tables sc) key = Some n \<and>
                   new = CompoundIdentifier (n @ [i])))
             (find_columns_list cs) (find_columns_list cs'))
          (find_selects_list tree) (find_selects_list tree')"
  proof (intro allI impI)
    fix tree'
    assume r: "prepare_tree tree engine database catalog schema = Inr tree'"
    show "list_all2
          (\<lambda>cs cs'. list_all2
             (\<lambda>old new. \<forall>i. old = Identifier i \<longrightarrow>
                (\<exists>key n. candidates sc i = [key] \<and> dict_get (tables sc) key = Some n \<and>
                   new = CompoundIdentifier (n @ [i])))
             (find_columns_list cs) (find_columns_list cs'))
          (find_selects_list tree) (find_selects_list tree')"
      using prepare_tree_selects[OF r assms]
      by (rule list_all2_mono) (auto elim!: list_all2_mono dest: rewritten_identifier)
  qed
  have b: "\<forall>err. prepare_tree tree engine database catalog schema = Inl err \<longrightarrow>
        (\<exists>cs\<in>set (find_selects_list tree).
           (err = ValueError \<and>
              (\<exists>c. CompoundIdentifier c \<in> set (find_columns_list cs) \<and> length c < 2)) \<or>
           (\<exists>i. Identifier i \<in> set (find_columns_list cs) \<and>
              ((err = ColumnNotFound i \<and> candidates sc i = []) \<or>
               (err = ColumnAmbiguous i \<and> 1 < length (candidates sc i)))))"
  proof (intro allI impI)
    fix err
    assume l: "prepare_tree tree engine database catalog schema = Inl err"
    from prepare_tree_Inl[OF assms l] obtain cs where cs: "cs \<in> set (find_selects_list tree)"
      and d: "(err = ValueError \<and>
                (\<exists>c. CompoundIdentifier c \<in> set (find_columns_list cs) \<and> length c < 2)) \<or>
              (\<exists>i. Identifier i \<in> set (find_columns_list cs) \<and> qualify_identifier sc i = Inl err)"
      by blast
    from d qualify_identifier_Inl[OF keys]
    have "(err = ValueError \<and>
              (\<exists>c. CompoundIdentifier c \<in> set (find_columns_list cs) \<and> length c < 2)) \<or>
           (\<exists>i. Identifier i \<in> set (find_columns_list cs) \<and>
              ((err = ColumnNotFound i \<and> candidates sc i = []) \<or>
               (err = ColumnAmbiguous i \<and> 1 < length (candidates sc i))))"
      by blast
    with cs show "\<exists>cs\<in>set (find_selects_list tree).
           (err = ValueError \<and>
              (\<exists>c. CompoundIdentifier c \<in> set (find_columns_list cs) \<and> length c < 2)) \<or>
           (\<exists>i. Identifier i \<in> set (find_columns_list cs) \<and>
              ((err = ColumnNotFound i \<and> candidates sc i = []) \<or>
               (err = ColumnAmbiguous i \<and> 1 < length (candidates sc i))))"
      by blast
  qed
  have c: "(\<exists>cs\<in>set (find_selects_list tree). \<exists>i. Identifier i \<in> set (find_columns_list cs) \<and>
          length (candidates sc i) \<noteq> 1) \<longrightarrow>
        (\<exists>err. prepare_tree tree engine database catalog schema = Inl err)"
  proof
    assume "\<exists>cs\<in>set (find_selects_list tree). \<exists>i. Identifier i \<in> set (find_columns_list cs) \<and>
          length (candidates sc i) \<noteq> 1"
    then obtain cs i where cs: "cs \<in> set (find_selects_list tree)"
      and i: "Identifier i \<in> set (find_columns_list cs)" and n: "length (candidates sc i) \<noteq> 1"
      by blast
    show "\<exists>err. prepare_tree tree engine database catalog schema = Inl err"
    proof (cases "prepare_tree tree engine database catalog schema")
      case (Inl err)
      then show ?thesis by blast
    next
      case (Inr tree')
      with a have l: "list_all2
          (\<lambda>cs cs'. list_all2
             (\<lambda>old new. \<forall>i. old = Identifier i \<longrightarrow>
                (\<exists>key n. candidates sc i = [key] \<and> dict_get (tables sc) key = Some n \<and>
                   new = CompoundIdentifier (n @ [i])))
             (find_columns_list cs) (find_columns_list cs'))
          (find_selects_list tree) (find_selects_list tree')" by blast
      from cs obtain j where j: "j < length (find_selects_list tree)"
        "find_selects_list tree ! j = cs" by (auto simp: in_set_conv_nth)
      with l have l2: "list_all2
             (\<lambda>old new. \<forall>i. old = Identifier i \<longrightarrow>
                (\<exists>key n. candidates sc i = [key] \<and> dict_get (tables sc) key = Some n \<and>
                   new = CompoundIdentifier (n @ [i])))
             (find_columns_list cs) (find_columns_list (find_selects_list tree' ! j))"
        by (auto simp: list_all2_conv_all_nth)
      from i obtain k where k: "k < length (find_columns_list cs)"
        "find_columns_list cs ! k = Identifier i" by (auto simp: in_set_conv_nth)
      with l2 have "\<exists>key. candidates sc i = [key]"
        unfolding list_all2_conv_all_nth by blast
      with n show ?thesis by auto
    qed
  qed
  have d: "\<forall>i key. key \<in> set (candidates sc i) \<longleftrightarrow>
        (\<exists>cols. dict_get (columns sc) key = Some cols \<and> occurs_in (val i) cols)"
    using candidates_iff[OF dist] by blast
  have e: "\<forall>i. distinct (candidates sc i)"
    using distinct_candidates[OF dist] by blast
  have f: "fst ` set (columns sc) =
       (\<lambda>t. table_key (qualify_name ?p (table_name t))) ` set (find_tables_list tree)"
    using ks by (simp add: image_image)
  have g: "\<forall>key cols. dict_get (columns sc) key = Some cols \<longrightarrow>
        (\<exists>t\<in>set (find_tables_list tree).
           table_key (qualify_name ?p (table_name t)) = key \<and>
           get_column_names engine (qualify_name ?p (table_name t)) = Inr cols)"
    using cl by fastforce
  have h: "\<forall>key n. dict_get (tables sc) key = Some n \<longrightarrow>
        table_key n = key \<and>
        (\<exists>t\<in>set (find_tables_list tree). n = qualify_name ?p (table_name t))"
    using tb by fastforce
  from a b c d e f g h show ?thesis unfolding Let_def by blast
qed

lemma test_phase1:
  "qualify_tables_list (make_prefix ''postgres'' None (Some ''main'')) test_engine sales_query
     empty_scope =
   Inr (rename_tables_list (make_prefix ''postgres'' None (Some ''main'')) sales_query, sales_scope)"
  by code_simp

lemma test_ambiguous:
  "prepare_tree two_tables_query two_tables_engine ''postgres'' None (Some ''main'') =
     Inl (ColumnAmbiguous (plain ''id''))"
  by code_simp

lemma test_not_found:
  "prepare_tree two_tables_query no_columns_engine ''postgres'' None (Some ''main'') =
     Inl (ColumnNotFound (plain ''id''))"
  by code_simp

text \<open>
  C8 as the spec states it fails for a table name of five parts: \<^verbatim>\<open>4 - len(name)\<close>
  is \<^verbatim>\<open>-1\<close>, the slice \<^verbatim>\<open>prefix[:-1]\<close> has two parts, and the name gets seven.
\<close>

theorem prepare_tree_five_parts_counterexample:
  "prepare_tree (select_star_from [''a'', ''b'', ''c'', ''d'', ''e'']) no_columns_engine
     ''postgres'' (Some ''hive'') (Some ''main'') =
   Inr [Other ''Query'' [Select
          [Other ''projection'' [Other ''Wildcard'' []],
           Other ''from''
             [Table (map plain [''postgres'', ''hive'', ''a'', ''b'', ''c'', ''d'', ''e'']) None]]]]"
  by code_simp

theorem prepare_tree_qualifies_tables_witness:
  "\<exists>tree'. prepare_tree sales_query test_engine ''postgres'' None (Some ''main'') = Inr tree' \<and>
     map table_name (find_tables_list tree') =
       [[plain ''postgres'', Ident None None, plain ''main'', plain ''sales'']]"
proof -
  from prepare_tree_qualifies_tables[OF test_prepare_tree_sales, unfolded Let_def]
  have "map table_name (find_tables_list
          [Other ''Query'' [Select
        [Other ''projection''
           [UnnamedExpr (CompoundIdentifier [plain ''postgres'', Ident None None, plain ''main'',
              plain ''sales'', plain ''event_time'']),
            UnnamedExpr (Other ''Function'' [CompoundIdentifier [plain ''postgres'',
              Ident None None, plain ''main'', plain ''sales'', plain ''price'']])],
         Other ''from'' [Table [plain ''postgres'', Ident None None, plain ''main'',
              plain ''sales''] None]]]]) =
       map (\<lambda>t. qualify_name (make_prefix ''postgres'' None (Some ''main'')) (table_name t))
         (find_tables_list sales_query)"
    by (rule conjunct1)
  moreover have "map (\<lambda>t. qualify_name (make_prefix ''postgres'' None (Some ''main'')) (table_name t))
         (find_tables_list sales_query) =
      [[plain ''postgres'', Ident None None, plain ''main'', plain ''sales'']]"
    by (simp add: sales_query_def qualify_name_def make_prefix_def slice_to_def plain_def)
  ultimately show ?thesis using test_prepare_tree_sales by simp
qed

theorem prepare_tree_bare_identifiers_witness:
  "\<exists>key n. candidates sales_scope (plain ''price'') = [key] \<and>
     dict_get (tables sales_scope) key = Some n \<and>
     n @ [plain ''price''] =
       [plain ''postgres'', Ident None None, plain ''main'', plain ''sales'', plain ''price'']"
proof -
  from prepare_tree_bare_identifiers[OF test_phase1, unfolded Let_def]
  have "\<forall>tree'. prepare_tree sales_query test_engine ''postgres'' None (Some ''main'') = Inr tree' \<longrightarrow>
        list_all2
          (\<lambda>cs cs'. list_all2
             (\<lambda>old new. \<forall>i. old = Identifier i \<longrightarrow>
                (\<exists>key n. candidates sales_scope i = [key] \<and>
                   dict_get (tables sales_scope) key = Some n \<and>
                   new = CompoundIdentifier (n @ [i])))
             (find_columns_list cs) (find_columns_list cs'))
          (find_selects_list sales_query) (find_selects_list tree')"
    by (rule conjunct1)
  with test_prepare_tree_sales show ?thesis
    by (simp add: sales_query_def eq_commute)
qed

text \<open>
  C7 as the spec states it fails when the column belongs to a table of another statement.
  The first statement selects \<^verbatim>\<open>price\<close> from \<^verbatim>\<open>orders\<close>, which has the column \<^verbatim>\<open>id\<close>
  only; the second statement reads \<^verbatim>\<open>sales\<close>, which has \<^verbatim>\<open>price\<close>. No table in the
  scope of the first select has the column, yet \<^verbatim>\<open>prepare_tree\<close> raises nothing and
  rewrites the identifier to the column of \<^verbatim>\<open>sales\<close>.
\<close>

theorem prepare_tree_other_statement_counterexample:
  "prepare_tree two_statements orders_sales_engine ''postgres'' None (Some ''main'') =
     Inr [Other ''Query'' [Select
            [Other ''projection''
               [UnnamedExpr (CompoundIdentifier [plain ''postgres'', Ident None None,
                  plain ''main'', plain ''sales'', plain ''price''])],
             Other ''from'' [Table [plain ''postgres'', Ident None None, plain ''main'',
                  plain ''orders''] None]]],
          Other ''Query'' [Select
            [Other ''projection'' [Other ''Wildcard'' []],
             Other ''from'' [Table [plain ''postgres'', Ident None None, plain ''main'',
                  plain ''sales''] None]]]] \<and>
   find_tables_list (hd (find_selects_list two_statements)) = [Table [plain ''orders''] None] \<and>
   get_column_names orders_sales_engine
     [plain ''postgres'', Ident None None, plain ''main'', plain ''orders''] = Inr [''id'']"
  by code_simp

end
